theory Spec2Isabelle
  imports Main "HOL-Library.Word"
begin

unbundle bit_operations_syntax

section \<open>FTPVita: the session handlers of libftpvita/ftpvita.c\<close>

text \<open>
  The handlers of \<^verbatim>\<open>ftpvita.c\<close> are embedded as functions on the per-client record.
  Every call into the platform (sockets, file system, allocator) is written to a trace
  of events, in the order the C code makes the calls; what the platform returns is read
  from a record of results. C strings are HOL strings (the bytes before the
  terminating NUL); a \<^verbatim>\<open>const char *\<close> that may be NULL is a \<open>string option\<close>.
  The line buffer holds one NUL-terminated line. \<^verbatim>\<open>cmd_CWD_func\<close> writes its paths
  into \<^verbatim>\<open>char[PATH_MAX]\<close> buffers without a length check: where a string does not fit,
  the behaviour of the C code is undefined and the model has no result (\<open>None\<close>). For
  the file commands (\<^verbatim>\<open>gen_filepath\<close>) the destination buffer is taken to be large
  enough for the path written to it.
\<close>

subsection \<open>C library helpers\<close>

text \<open>\<^verbatim>\<open>strrchr(s, c)\<close>: the offset of the last occurrence of \<open>c\<close>, \<open>None\<close> for NULL.\<close>

fun strrchr :: "string \<Rightarrow> char \<Rightarrow> nat option" where
  "strrchr [] c = None"
| "strrchr (x # xs) c =
     (case strrchr xs c of
        Some i \<Rightarrow> Some (Suc i)
      | None \<Rightarrow> (if x = c then Some 0 else None))"

text \<open>\<^verbatim>\<open>isspace\<close> in the C locale: space, TAB, LF, VT, FF, CR.\<close>

definition isspace :: "char \<Rightarrow> bool" where
  "isspace c \<longleftrightarrow> c \<in> {CHR '' '', CHR 0x09, CHR 0x0A, CHR 0x0B, CHR 0x0C, CHR 0x0D}"

text \<open>The scanset \<^verbatim>\<open>[^\r\n\t]\<close>.\<close>

definition not_crlftab :: "char \<Rightarrow> bool" where
  "not_crlftab c \<longleftrightarrow> c \<notin> {CHR 0x0D, CHR 0x0A, CHR 0x09}"

text \<open>
  \<^verbatim>\<open>sscanf(buf, "%*s %[^\r\n\t]", out)\<close>: skip white space, skip one word, skip white
  space, then store the longest non-empty run of characters other than CR, LF and TAB.
  \<open>Some out\<close> stands for the return value 1; \<open>None\<close> for a return value below 1, in
  which case the destination is not written.
\<close>

definition sscanf_word_arg :: "string \<Rightarrow> string option" where
  "sscanf_word_arg buf =
     (let s0 = dropWhile isspace buf in
      if s0 = [] then None
      else
        let s1 = dropWhile (\<lambda>c. \<not> isspace c) s0;
            s2 = dropWhile isspace s1;
            out = takeWhile not_crlftab s2
        in if out = [] then None else Some out)"

text \<open>
  \<^verbatim>\<open>sscanf(buf, "%*[^ ] %[^\r\n\t]", out)\<close>: the first directive matches a non-empty
  run of characters other than the space and does not skip leading white space.
\<close>

definition sscanf_nonspace_arg :: "string \<Rightarrow> string option" where
  "sscanf_nonspace_arg buf =
     (let w = takeWhile (\<lambda>c. c \<noteq> CHR '' '') buf in
      if w = [] then None
      else
        let s1 = dropWhile (\<lambda>c. c \<noteq> CHR '' '') buf;
            s2 = dropWhile isspace s1;
            out = takeWhile not_crlftab s2
        in if out = [] then None else Some out)"

text \<open>The test \<^verbatim>\<open>s[0] == '/'\<close> on a C string (false on the empty string).\<close>

definition starts_with_slash :: "string \<Rightarrow> bool" where
  "starts_with_slash s = (case s of [] \<Rightarrow> False | c # _ \<Rightarrow> c = CHR ''/'')"

text \<open>Decimal rendering, as \<^verbatim>\<open>printf\<close> does for \<^verbatim>\<open>%hhu\<close> and \<^verbatim>\<open>%lld\<close>.\<close>

function dec :: "nat \<Rightarrow> string" where
  "dec n = (if n < 10 then [''0123456789'' ! n] else dec (n div 10) @ [''0123456789'' ! (n mod 10)])"
  by pat_completeness auto
termination
  by (relation "measure (\<lambda>n. n)") auto

definition dec_int :: "int \<Rightarrow> string" where
  "dec_int i = (if i < 0 then ''-'' @ dec (nat (- i)) else dec (nat i))"

text \<open>\<^verbatim>\<open>%hhu\<close>: the argument converted to \<^verbatim>\<open>unsigned char\<close>.\<close>

definition hhu :: "32 word \<Rightarrow> string" where
  "hhu w = dec (unat (ucast w :: 8 word))"

text \<open>
  \<^verbatim>\<open>PATH_MAX\<close> comes from \<^verbatim>\<open><sys/syslimits.h>\<close>, which is not part of the
  repository; 1024 is the value of the newlib header the library is built with. A
  string fits a \<^verbatim>\<open>char[PATH_MAX]\<close> buffer when there is room for its terminating NUL.
\<close>

definition PATH_MAX :: nat where
  "PATH_MAX = 1024"

definition fits :: "string \<Rightarrow> bool" where
  "fits s \<longleftrightarrow> length s < PATH_MAX"

text \<open>
  \<^verbatim>\<open>sceNetHtons\<close> is a platform function: it converts a 16-bit value from host to
  network (big-endian) byte order. The PS Vita is a little-endian ARM machine, so it
  swaps the two bytes. The port of a socket address (\<^verbatim>\<open>sin_port\<close>) is kept in network
  byte order: the code stores it with \<^verbatim>\<open>sceNetHtons\<close> wherever it fills an address.
\<close>

definition sceNetHtons :: "16 word \<Rightarrow> 16 word" where
  "sceNetHtons hostshort = of_nat (unat hostshort mod 256 * 256 + unat hostshort div 256)"

subsection \<open>Data model\<close>

datatype DataConnectionType =
    FTP_DATA_CONNECTION_NONE
  | FTP_DATA_CONNECTION_ACTIVE
  | FTP_DATA_CONNECTION_PASSIVE

record ClientInfo =
  num :: int
  thid :: int
  ctrl_sockfd :: int
  data_sockfd :: int
  data_con_type :: DataConnectionType
  data_sin_addr :: "32 word"
  data_sin_port :: "16 word"
  pasv_sockfd :: int
  recv_buffer :: string
  cur_path :: string
  rename_path :: string

text \<open>One slot of the static \<^verbatim>\<open>device_list[MAX_DEVICES]\<close>.\<close>

record device =
  name :: string
  valid :: int

definition MAX_DEVICES :: nat where
  "MAX_DEVICES = 16"

text \<open>
  The arguments of one \<^verbatim>\<open>gen_list_format\<close> call (one line of a listing):
  \<^verbatim>\<open>file_size\<close> is an \<^verbatim>\<open>unsigned int\<close>, the date and time are \<^verbatim>\<open>int\<close>s.
\<close>

record list_line =
  line_dir :: bool
  line_size :: "32 word"
  line_month :: int
  line_day :: int
  line_hour :: int
  line_minute :: int
  line_name :: string

text \<open>
  What the handlers read of a \<^verbatim>\<open>SceIoStat\<close>: whether \<^verbatim>\<open>SCE_S_ISDIR\<close> holds of the
  mode, the 64-bit size (\<^verbatim>\<open>SceOff\<close>), and month, day, hour and minute
  (\<^verbatim>\<open>unsigned short\<close> each) of the two time stamps.
\<close>

record io_stat =
  st_isdir :: bool
  st_size :: "64 word"
  st_ctime :: "16 word \<times> 16 word \<times> 16 word \<times> 16 word"
  st_mtime :: "16 word \<times> 16 word \<times> 16 word \<times> 16 word"

record dirent =
  d_stat :: io_stat
  d_name :: string

datatype open_mode = O_RDONLY | O_CREAT_WRONLY_TRUNC | O_WRONLY_CREAT

text \<open>
  The platform calls a handler makes. Descriptors and return codes are C \<^verbatim>\<open>int\<close>s
  that the code only compares with 0, so they are \<open>int\<close>. \<open>NetSocket fd\<close> is a
  \<^verbatim>\<open>sceNetSocket\<close> call that returned \<open>fd\<close>; \<open>NetAccept l fd\<close> is a
  \<^verbatim>\<open>sceNetAccept\<close> on the listening socket \<open>l\<close> that returned \<open>fd\<close>. A listing
  line is recorded by the arguments handed to \<^verbatim>\<open>gen_list_format\<close>.
\<close>

datatype event =
    SendCtrl string
  | SendDataMsg int list_line
  | SendDataRaw int "32 word"
  | RecvData int
  | NetSocket int
  | NetBind int
  | NetListen int
  | NetGetsockname int
  | NetConnect int
  | NetAccept int int
  | NetSocketClose int
  | IoDopen "string option"
  | IoDread int
  | IoDclose int
  | IoOpen "string option" open_mode
  | IoLseekEnd int
  | IoRead int
  | IoWrite int int
  | IoClose int
  | IoRemove "string option"
  | IoRmdir "string option"
  | IoMkdir "string option"
  | IoRename string "string option"
  | IoGetstat "string option"
  | Malloc
  | Free

text \<open>
  What the platform returns. \<open>io_dread\<close>, \<open>io_read\<close> and \<open>net_recv\<close> are the results
  of the successive calls a transfer loop makes; a loop that has not ended when the
  list is used up has not returned, which is the value \<open>None\<close> of the handler.
  \<open>stack_cmd_path\<close> is what the uninitialised local \<^verbatim>\<open>cmd_path\<close> of
  \<^verbatim>\<open>gen_filepath\<close> holds when \<^verbatim>\<open>sscanf\<close> stores nothing.
\<close>

record platform =
  io_dopen :: "string option \<Rightarrow> int"
  io_open :: "string option \<Rightarrow> open_mode \<Rightarrow> int"
  io_remove :: "string option \<Rightarrow> int"
  io_rmdir :: "string option \<Rightarrow> int"
  io_mkdir :: "string option \<Rightarrow> int"
  io_rename :: "string \<Rightarrow> string option \<Rightarrow> int"
  io_getstat :: "string option \<Rightarrow> int \<times> io_stat"
  io_dread :: "(int \<times> dirent) list"
  io_read :: "32 word list"
  net_recv :: "int list"
  net_socket :: int
  net_accept :: int
  picked_sin_port :: "16 word"
  malloc_ok :: bool
  stack_cmd_path :: string

subsection \<open>Path translation and navigation\<close>

definition get_vita_path :: "string \<Rightarrow> string option" where
  "get_vita_path path = (if length path > 1 then Some (drop 1 path) else None)"

definition path_is_at_root :: "string \<Rightarrow> bool" where
  "path_is_at_root path =
     (case strrchr path CHR ''/'' of
        None \<Rightarrow> False
      | Some i \<Rightarrow> i + 1 = length path)"

text \<open>
  \<^verbatim>\<open>dir_up\<close> rewrites the path in place. When the path has no \<^verbatim>\<open>'/'\<close> (and is not
  one character long) \<^verbatim>\<open>pch\<close> is NULL and the \<^verbatim>\<open>memset\<close> is undefined: \<open>None\<close>.
\<close>

definition dir_up :: "string \<Rightarrow> string option" where
  "dir_up path =
     (let len_in = length path in
      if len_in = 1 then Some ''/''
      else if path_is_at_root path then Some ''/''
      else
        (case strrchr path CHR ''/'' of
           None \<Rightarrow> None
         | Some pch \<Rightarrow>
             let path' = take pch path in
             if strrchr path' CHR ''/'' = Some 0 then Some (path' @ ''/'')
             else Some path'))"

text \<open>
  The path a \<^verbatim>\<open>CWD\<close> with an argument other than \<^verbatim>\<open>/\<close> and \<^verbatim>\<open>..\<close> changes to
  (\<^verbatim>\<open>tmp_path\<close> in \<^verbatim>\<open>cmd_CWD_func\<close>). It is built in \<^verbatim>\<open>char tmp_path[PATH_MAX]\<close>
  with \<^verbatim>\<open>strcpy\<close> or \<^verbatim>\<open>sprintf\<close> and then \<^verbatim>\<open>strcat\<close>, none of them checked:
  \<open>None\<close> when one of them writes past the buffer.
\<close>

definition cwd_tmp_path :: "ClientInfo \<Rightarrow> string \<Rightarrow> string option" where
  "cwd_tmp_path client cmd_path =
     (let tmp_path =
            (if starts_with_slash cmd_path then cmd_path
             else if path_is_at_root (cur_path client) then cur_path client @ cmd_path
             else cur_path client @ ''/'' @ cmd_path)
      in if \<not> fits tmp_path then None
         else if strrchr tmp_path CHR ''/'' = Some 0 then
           (if fits (tmp_path @ ''/'') then Some (tmp_path @ ''/'') else None)
         else Some tmp_path)"

text \<open>
  \<^verbatim>\<open>sscanf\<close> stores the argument in \<^verbatim>\<open>char cmd_path[PATH_MAX]\<close> without a field
  width: \<open>None\<close> when it does not fit. The paths stored in \<^verbatim>\<open>cur_path[PATH_MAX]\<close>
  are \<^verbatim>\<open>/\<close>, a \<^verbatim>\<open>tmp_path\<close> that fits, or what \<^verbatim>\<open>dir_up\<close> makes of the current
  path in place, which is never longer than the path it started from.
\<close>

definition cmd_CWD_func :: "platform \<Rightarrow> ClientInfo \<Rightarrow> (ClientInfo \<times> event list) option" where
  "cmd_CWD_func P client =
     (case sscanf_word_arg (recv_buffer client) of
        None \<Rightarrow> Some (client, [SendCtrl ''500 Syntax error, command unrecognized.\<newline>''])
      | Some cmd_path \<Rightarrow>
          if \<not> fits cmd_path then None
          else if cmd_path = ''/'' then
            Some (client\<lparr>cur_path := cmd_path\<rparr>,
                  [SendCtrl ''250 Requested file action okay, completed.\<newline>''])
          else if cmd_path = ''..'' then
            (case dir_up (cur_path client) of
               None \<Rightarrow> None
             | Some p \<Rightarrow>
                 Some (client\<lparr>cur_path := p\<rparr>,
                       [SendCtrl ''250 Requested file action okay, completed.\<newline>'']))
          else
            (case cwd_tmp_path client cmd_path of
               None \<Rightarrow> None
             | Some tmp_path \<Rightarrow>
                 if tmp_path \<noteq> ''/'' then
                   (let pd = io_dopen P (get_vita_path tmp_path) in
                    if pd < 0 then
                      Some (client,
                            [IoDopen (get_vita_path tmp_path),
                             SendCtrl ''550 Invalid directory.\<newline>''])
                    else
                      Some (client\<lparr>cur_path := tmp_path\<rparr>,
                            [IoDopen (get_vita_path tmp_path), IoDclose pd,
                             SendCtrl ''250 Requested file action okay, completed.\<newline>'']))
                 else
                   Some (client\<lparr>cur_path := tmp_path\<rparr>,
                         [SendCtrl ''250 Requested file action okay, completed.\<newline>''])))"

definition cmd_CDUP_func :: "ClientInfo \<Rightarrow> (ClientInfo \<times> event list) option" where
  "cmd_CDUP_func client =
     (case dir_up (cur_path client) of
        None \<Rightarrow> None
      | Some p \<Rightarrow> Some (client\<lparr>cur_path := p\<rparr>, [SendCtrl ''200 Command okay.\<newline>'']))"

subsection \<open>The data channel\<close>

text \<open>
  PASV: \<open>vita_addr\<close> is the global set by \<^verbatim>\<open>ftpvita_init\<close>. The reply prints the
  bytes of \<^verbatim>\<open>picked.sin_port\<close> as \<^verbatim>\<open>sceNetGetsockname\<close> stored it, with no
  conversion to host byte order. The listening address is
  \<^verbatim>\<open>sceNetHtonl(SCE_NET_INADDR_ANY)\<close>, which is 0 in either byte order.
\<close>

definition pasv_reply :: "32 word \<Rightarrow> 16 word \<Rightarrow> string" where
  "pasv_reply s_addr sin_port =
     ''227 Entering Passive Mode ('' @
       hhu (drop_bit 0 s_addr AND 0xFF) @ '','' @
       hhu (drop_bit 8 s_addr AND 0xFF) @ '','' @
       hhu (drop_bit 16 s_addr AND 0xFF) @ '','' @
       hhu (drop_bit 24 s_addr AND 0xFF) @ '','' @
       hhu (drop_bit 0 (ucast sin_port :: 32 word) AND 0xFF) @ '','' @
       hhu (drop_bit 8 (ucast sin_port :: 32 word) AND 0xFF) @ '')\<newline>''"

definition cmd_PASV_func :: "32 word \<Rightarrow> platform \<Rightarrow> ClientInfo \<Rightarrow> ClientInfo \<times> event list" where
  "cmd_PASV_func vita_addr P client =
     (let fd = net_socket P;
          client1 = client\<lparr>data_sockfd := fd, data_sin_addr := 0,
                           data_sin_port := sceNetHtons 0\<rparr>
      in (client1\<lparr>data_con_type := FTP_DATA_CONNECTION_PASSIVE\<rparr>,
          [NetSocket fd, NetBind fd, NetListen fd, NetGetsockname fd,
           SendCtrl (pasv_reply vita_addr (picked_sin_port P))]))"

definition client_open_data_connection :: "platform \<Rightarrow> ClientInfo \<Rightarrow> ClientInfo \<times> event list" where
  "client_open_data_connection P client =
     (if data_con_type client = FTP_DATA_CONNECTION_ACTIVE then
        (client, [NetConnect (data_sockfd client)])
      else
        (client\<lparr>pasv_sockfd := net_accept P\<rparr>,
         [NetAccept (data_sockfd client) (net_accept P)]))"

definition client_close_data_connection :: "ClientInfo \<Rightarrow> ClientInfo \<times> event list" where
  "client_close_data_connection client =
     (client\<lparr>data_con_type := FTP_DATA_CONNECTION_NONE\<rparr>,
      NetSocketClose (data_sockfd client) #
        (if data_con_type client = FTP_DATA_CONNECTION_PASSIVE
         then [NetSocketClose (pasv_sockfd client)] else []))"

text \<open>
  What \<^verbatim>\<open>client_thread\<close> closes after its command loop has ended, before it frees the
  client record.
\<close>

definition client_thread_cleanup :: "ClientInfo \<Rightarrow> event list" where
  "client_thread_cleanup client =
     NetSocketClose (ctrl_sockfd client) #
       (if data_con_type client \<noteq> FTP_DATA_CONNECTION_NONE then
          NetSocketClose (data_sockfd client) #
            (if data_con_type client = FTP_DATA_CONNECTION_PASSIVE
             then [NetSocketClose (pasv_sockfd client)] else [])
        else [])"

text \<open>
  The socket that \<^verbatim>\<open>client_send_data_msg\<close>, \<^verbatim>\<open>client_send_data_raw\<close> and
  \<^verbatim>\<open>client_recv_data_raw\<close> use.
\<close>

definition data_fd :: "ClientInfo \<Rightarrow> int" where
  "data_fd client =
     (if data_con_type client = FTP_DATA_CONNECTION_ACTIVE then data_sockfd client
      else pasv_sockfd client)"

subsection \<open>LIST\<close>

text \<open>
  The arguments \<^verbatim>\<open>send_LIST\<close> hands to \<^verbatim>\<open>gen_list_format\<close>: the 64-bit
  \<^verbatim>\<open>st_size\<close> is converted to the \<^verbatim>\<open>unsigned int\<close> parameter (its low 32 bits).
\<close>

definition device_line :: "platform \<Rightarrow> string \<Rightarrow> list_line" where
  "device_line P devname =
     (let st = snd (io_getstat P (Some devname)) in
      (case st_mtime st of (mo, d, h, mi) \<Rightarrow>
        \<lparr>line_dir = True, line_size = ucast (st_size st), line_month = uint mo,
         line_day = uint d, line_hour = uint h, line_minute = uint mi,
         line_name = devname\<rparr>))"

definition dirent_line :: "dirent \<Rightarrow> list_line" where
  "dirent_line de =
     (case st_ctime (d_stat de) of (mo, d, h, mi) \<Rightarrow>
        \<lparr>line_dir = st_isdir (d_stat de), line_size = ucast (st_size (d_stat de)),
         line_month = uint mo, line_day = uint d, line_hour = uint h, line_minute = uint mi,
         line_name = d_name de\<rparr>)"

text \<open>The loop over the \<^verbatim>\<open>MAX_DEVICES\<close> slots of the device list.\<close>

function send_devices_from :: "platform \<Rightarrow> int \<Rightarrow> device list \<Rightarrow> nat \<Rightarrow> event list" where
  "send_devices_from P fd dl i =
     (if i < MAX_DEVICES \<and> i < length dl then
        (if valid (dl ! i) \<noteq> 0 then
           [IoGetstat (Some (name (dl ! i))), SendDataMsg fd (device_line P (name (dl ! i)))]
         else []) @ send_devices_from P fd dl (Suc i)
      else [])"
  by pat_completeness auto
termination
  by (relation "measure (\<lambda>(P, fd, dl, i). MAX_DEVICES - i)") auto

text \<open>The loop \<^verbatim>\<open>while (sceIoDread(dir, &dirent) > 0)\<close>.\<close>

fun dread_loop :: "int \<Rightarrow> int \<Rightarrow> (int \<times> dirent) list \<Rightarrow> event list option" where
  "dread_loop dir fd [] = None"
| "dread_loop dir fd ((r, de) # rs) =
     (if r > 0 then
        map_option (\<lambda>t. [IoDread dir, SendDataMsg fd (dirent_line de)] @ t) (dread_loop dir fd rs)
      else Some [IoDread dir])"

definition send_LIST ::
  "device list \<Rightarrow> platform \<Rightarrow> ClientInfo \<Rightarrow> string \<Rightarrow> (ClientInfo \<times> event list) option" where
  "send_LIST dl P client path =
     (let send_devices = (path = ''/'');
          dir = io_dopen P (get_vita_path path)
      in
        if \<not> send_devices \<and> dir < 0 then
          Some (client, [IoDopen (get_vita_path path), SendCtrl ''550 Invalid directory.\<newline>''])
        else
          (case client_open_data_connection P client of (client1, t_open) \<Rightarrow>
            (case (if send_devices then Some (send_devices_from P (data_fd client1) dl 0)
                   else map_option (\<lambda>t. t @ [IoDclose dir])
                          (dread_loop dir (data_fd client1) (io_dread P))) of
               None \<Rightarrow> None
             | Some t_body \<Rightarrow>
                 (case client_close_data_connection client1 of (client2, t_close) \<Rightarrow>
                    Some (client2,
                          (if send_devices then [] else [IoDopen (get_vita_path path)]) @
                          [SendCtrl ''150 Opening ASCII mode data transfer for LIST.\<newline>''] @
                          t_open @ t_body @ t_close @
                          [SendCtrl ''226 Transfer complete.\<newline>''])))))"

definition cmd_LIST_func ::
  "device list \<Rightarrow> platform \<Rightarrow> ClientInfo \<Rightarrow> (ClientInfo \<times> event list) option" where
  "cmd_LIST_func dl P client =
     (case sscanf_word_arg (recv_buffer client) of
        Some list_path \<Rightarrow> send_LIST dl P client list_path
      | None \<Rightarrow> send_LIST dl P client (cur_path client))"

subsection \<open>File transfers\<close>

text \<open>
  \<^verbatim>\<open>while ((bytes_read = sceIoRead(...)) > 0)\<close> with \<^verbatim>\<open>unsigned int bytes_read\<close>: the
  comparison is unsigned, so the loop goes on for every non-zero result.
\<close>

fun read_loop :: "int \<Rightarrow> int \<Rightarrow> 32 word list \<Rightarrow> event list option" where
  "read_loop fd dfd [] = None"
| "read_loop fd dfd (bytes_read # rs) =
     (if 0 < bytes_read then
        map_option (\<lambda>t. [IoRead fd, SendDataRaw dfd bytes_read] @ t) (read_loop fd dfd rs)
      else Some [IoRead fd])"

definition send_file ::
  "platform \<Rightarrow> ClientInfo \<Rightarrow> string option \<Rightarrow> (ClientInfo \<times> event list) option" where
  "send_file P client path =
     (let fd = io_open P path O_RDONLY in
      if fd \<ge> 0 then
        (if \<not> malloc_ok P then
           Some (client, [IoOpen path O_RDONLY, Malloc, SendCtrl ''550 Could not allocate memory.\<newline>''])
         else
           (case client_open_data_connection P client of (client1, t_open) \<Rightarrow>
             (case read_loop fd (data_fd client1) (io_read P) of
                None \<Rightarrow> None
              | Some t_loop \<Rightarrow>
                  (case client_close_data_connection client1 of (client2, t_close) \<Rightarrow>
                     Some (client2,
                           [IoOpen path O_RDONLY, Malloc] @ t_open @
                           [SendCtrl ''150 Opening Image mode data transfer.\<newline>''] @
                           t_loop @
                           [IoClose fd, Free, SendCtrl ''226 Transfer completed.\<newline>''] @
                           t_close)))))
      else Some (client, [IoOpen path O_RDONLY, SendCtrl ''550 File not found.\<newline>'']))"

text \<open>
  The path a file command names: the argument itself when it starts with \<^verbatim>\<open>'/'\<close>, else
  the argument appended to the current path.
\<close>

definition gen_filepath :: "platform \<Rightarrow> ClientInfo \<Rightarrow> string" where
  "gen_filepath P client =
     (let cmd_path =
            (case sscanf_nonspace_arg (recv_buffer client) of
               Some s \<Rightarrow> s
             | None \<Rightarrow> stack_cmd_path P)
      in if starts_with_slash cmd_path then cmd_path
         else cur_path client @ ''/'' @ cmd_path)"

definition cmd_RETR_func :: "platform \<Rightarrow> ClientInfo \<Rightarrow> (ClientInfo \<times> event list) option" where
  "cmd_RETR_func P client = send_file P client (get_vita_path (gen_filepath P client))"

text \<open>
  \<^verbatim>\<open>while ((bytes_recv = client_recv_data_raw(...)) > 0)\<close> with \<^verbatim>\<open>int bytes_recv\<close>; the
  result is the trace and the value of \<^verbatim>\<open>bytes_recv\<close> that ended the loop.
\<close>

fun recv_loop :: "int \<Rightarrow> int \<Rightarrow> int list \<Rightarrow> (event list \<times> int) option" where
  "recv_loop fd dfd [] = None"
| "recv_loop fd dfd (bytes_recv # rs) =
     (if bytes_recv > 0 then
        map_option (\<lambda>(t, e). ([RecvData dfd, IoWrite fd bytes_recv] @ t, e)) (recv_loop fd dfd rs)
      else Some ([RecvData dfd], bytes_recv))"

definition receive_file ::
  "platform \<Rightarrow> ClientInfo \<Rightarrow> string option \<Rightarrow> (ClientInfo \<times> event list) option" where
  "receive_file P client path =
     (let fd = io_open P path O_CREAT_WRONLY_TRUNC in
      if fd \<ge> 0 then
        (if \<not> malloc_ok P then
           Some (client, [IoOpen path O_CREAT_WRONLY_TRUNC, Malloc,
                          SendCtrl ''550 Could not allocate memory.\<newline>''])
         else
           (case client_open_data_connection P client of (client1, t_open) \<Rightarrow>
             (case recv_loop fd (data_fd client1) (net_recv P) of
                None \<Rightarrow> None
              | Some (t_loop, bytes_recv) \<Rightarrow>
                  (case client_close_data_connection client1 of (client2, t_close) \<Rightarrow>
                     Some (client2,
                           [IoOpen path O_CREAT_WRONLY_TRUNC, Malloc] @ t_open @
                           [SendCtrl ''150 Opening Image mode data transfer.\<newline>''] @
                           t_loop @ [IoClose fd, Free] @
                           (if bytes_recv = 0 then [SendCtrl ''226 Transfer completed.\<newline>'']
                            else [IoRemove path,
                                  SendCtrl ''426 Connection closed; transfer aborted.\<newline>'']) @
                           t_close)))))
      else Some (client, [IoOpen path O_CREAT_WRONLY_TRUNC, SendCtrl ''550 File not found.\<newline>'']))"

definition append_file ::
  "platform \<Rightarrow> ClientInfo \<Rightarrow> string option \<Rightarrow> (ClientInfo \<times> event list) option" where
  "append_file P client path =
     (let fd = io_open P path O_WRONLY_CREAT in
      if fd \<ge> 0 then
        (if \<not> malloc_ok P then
           Some (client, [IoOpen path O_WRONLY_CREAT, IoLseekEnd fd, Malloc,
                          SendCtrl ''550 Could not allocate memory.\<newline>''])
         else
           (case client_open_data_connection P client of (client1, t_open) \<Rightarrow>
             (case recv_loop fd (data_fd client1) (net_recv P) of
                None \<Rightarrow> None
              | Some (t_loop, bytes_recv) \<Rightarrow>
                  (case client_close_data_connection client1 of (client2, t_close) \<Rightarrow>
                     Some (client2,
                           [IoOpen path O_WRONLY_CREAT, IoLseekEnd fd, Malloc] @ t_open @
                           [SendCtrl ''150 Opening Image mode data transfer.\<newline>''] @
                           t_loop @ [IoClose fd, Free] @
                           (if bytes_recv = 0 then [SendCtrl ''226 Transfer completed.\<newline>'']
                            else [IoRemove path,
                                  SendCtrl ''426 Connection closed; transfer aborted.\<newline>'']) @
                           t_close)))))
      else Some (client, [IoOpen path O_WRONLY_CREAT, SendCtrl ''550 File not found.\<newline>'']))"

definition cmd_STOR_func :: "platform \<Rightarrow> ClientInfo \<Rightarrow> (ClientInfo \<times> event list) option" where
  "cmd_STOR_func P client = receive_file P client (get_vita_path (gen_filepath P client))"

definition cmd_APPE_func :: "platform \<Rightarrow> ClientInfo \<Rightarrow> (ClientInfo \<times> event list) option" where
  "cmd_APPE_func P client = append_file P client (get_vita_path (gen_filepath P client))"

subsection \<open>File system commands\<close>

definition delete_file :: "platform \<Rightarrow> string option \<Rightarrow> event list" where
  "delete_file P path =
     [IoRemove path,
      if io_remove P path \<ge> 0 then SendCtrl ''226 File deleted.\<newline>''
      else SendCtrl ''550 Could not delete the file.\<newline>'']"

definition cmd_DELE_func :: "platform \<Rightarrow> ClientInfo \<Rightarrow> ClientInfo \<times> event list" where
  "cmd_DELE_func P client = (client, delete_file P (get_vita_path (gen_filepath P client)))"

definition delete_dir :: "platform \<Rightarrow> string option \<Rightarrow> event list" where
  "delete_dir P path =
     (let ret = io_rmdir P path in
      [IoRmdir path,
       if ret \<ge> 0 then SendCtrl ''226 Directory deleted.\<newline>''
       else if ret = 0x8001005A - 0x100000000 then SendCtrl ''550 Directory is not empty.\<newline>''
       else SendCtrl ''550 Could not delete the directory.\<newline>''])"

definition cmd_RMD_func :: "platform \<Rightarrow> ClientInfo \<Rightarrow> ClientInfo \<times> event list" where
  "cmd_RMD_func P client = (client, delete_dir P (get_vita_path (gen_filepath P client)))"

definition create_dir :: "platform \<Rightarrow> string option \<Rightarrow> event list" where
  "create_dir P path =
     [IoMkdir path,
      if io_mkdir P path \<ge> 0 then SendCtrl ''226 Directory created.\<newline>''
      else SendCtrl ''550 Could not create the directory.\<newline>'']"

definition cmd_MKD_func :: "platform \<Rightarrow> ClientInfo \<Rightarrow> ClientInfo \<times> event list" where
  "cmd_MKD_func P client = (client, create_dir P (get_vita_path (gen_filepath P client)))"

definition file_exists :: "platform \<Rightarrow> string option \<Rightarrow> bool" where
  "file_exists P path \<longleftrightarrow> fst (io_getstat P path) \<ge> 0"

text \<open>
  RNFR copies the native path with \<^verbatim>\<open>strcpy\<close>; with a NULL source that is undefined
  (\<open>None\<close>).
\<close>

definition cmd_RNFR_func :: "platform \<Rightarrow> ClientInfo \<Rightarrow> (ClientInfo \<times> event list) option" where
  "cmd_RNFR_func P client =
     (let vita_path_src = get_vita_path (gen_filepath P client) in
      if \<not> file_exists P vita_path_src then
        Some (client, [IoGetstat vita_path_src, SendCtrl ''550 The file doesn't exist.\<newline>''])
      else
        (case vita_path_src of
           None \<Rightarrow> None
         | Some src \<Rightarrow>
             Some (client\<lparr>rename_path := src\<rparr>,
                   [IoGetstat vita_path_src,
                    SendCtrl ''250 I need the destination name b0ss.\<newline>''])))"


definition cmd_SIZE_func :: "platform \<Rightarrow> ClientInfo \<Rightarrow> ClientInfo \<times> event list" where
  "cmd_SIZE_func P client =
     (let path = get_vita_path (gen_filepath P client) in
      if fst (io_getstat P path) < 0 then
        (client, [IoGetstat path, SendCtrl ''550 The file doesn't exist.\<newline>''])
      else
        (client,
         [IoGetstat path,
          SendCtrl (''213: '' @ dec_int (sint (st_size (snd (io_getstat P path)))) @ ''\<newline>'')]))"

subsection \<open>The device list\<close>





subsection \<open>Observations on traces\<close>

text \<open>The lines sent on the control connection, in the order they are sent.\<close>

definition ctrl_replies :: "event list \<Rightarrow> string list" where
  "ctrl_replies tr = concat (map (\<lambda>e. case e of SendCtrl s \<Rightarrow> [s] | _ \<Rightarrow> []) tr)"

text \<open>
  The steps of a data transfer. Every event of a transfer belongs to one step, except
  the allocation and release of the transfer buffer, which is no step of its own.
\<close>

datatype step =
    Validate
  | Reply150
  | Establish
  | Stream
  | CloseFile
  | RemovePartial
  | CloseData
  | FinalStatus

definition step_of :: "event \<Rightarrow> step list" where
  "step_of e =
     (case e of
        SendCtrl s \<Rightarrow> (if take 3 s = ''150'' then [Reply150] else [FinalStatus])
      | SendDataMsg fd l \<Rightarrow> [Stream]
      | SendDataRaw fd n \<Rightarrow> [Stream]
      | RecvData fd \<Rightarrow> [Stream]
      | IoDread d \<Rightarrow> [Stream]
      | IoRead fd \<Rightarrow> [Stream]
      | IoWrite fd n \<Rightarrow> [Stream]
      | IoGetstat p \<Rightarrow> [Stream]
      | NetConnect fd \<Rightarrow> [Establish]
      | NetAccept l fd \<Rightarrow> [Establish]
      | NetSocketClose fd \<Rightarrow> [CloseData]
      | IoDopen p \<Rightarrow> [Validate]
      | IoOpen p m \<Rightarrow> [Validate]
      | IoLseekEnd fd \<Rightarrow> [Validate]
      | IoDclose d \<Rightarrow> [CloseFile]
      | IoClose fd \<Rightarrow> [CloseFile]
      | IoRemove p \<Rightarrow> [RemovePartial]
      | _ \<Rightarrow> [])"

text \<open>The steps a trace goes through: consecutive events of one step count once.\<close>

definition steps :: "event list \<Rightarrow> step list" where
  "steps tr = remdups_adj (concat (map step_of tr))"

text \<open>
  The order of steps as the specification words it: validate, 150 reply, establish the
  data channel, stream, close the file handle, close the data channel, final status.
\<close>

definition spec_transfer_order :: "step list" where
  "spec_transfer_order =
     [Validate, Reply150, Establish, Stream, CloseFile, CloseData, FinalStatus]"

text \<open>
  Resource accounting: the socket descriptors a trace has created (\<^verbatim>\<open>sceNetSocket\<close>,
  \<^verbatim>\<open>sceNetAccept\<close>) and not closed.
\<close>

definition account :: "int list \<Rightarrow> event \<Rightarrow> int list" where
  "account socks e =
     (case e of
        NetSocket fd \<Rightarrow> (if fd \<ge> 0 then fd # socks else socks)
      | NetAccept l fd \<Rightarrow> (if fd \<ge> 0 then fd # socks else socks)
      | NetSocketClose fd \<Rightarrow> remove1 fd socks
      | _ \<Rightarrow> socks)"

definition open_sockets :: "event list \<Rightarrow> int list" where
  "open_sockets tr = foldl account [] tr"

text \<open>
  A session receiving a sequence of \<^verbatim>\<open>CWD\<close> lines: the client after the last one and
  the replies sent; then \<open>n\<close> times \<^verbatim>\<open>CDUP\<close>.
\<close>

fun cwd_seq :: "platform \<Rightarrow> ClientInfo \<Rightarrow> string list \<Rightarrow> (ClientInfo \<times> string list) option" where
  "cwd_seq P client [] = Some (client, [])"
| "cwd_seq P client (buf # bufs) =
     (case cmd_CWD_func P (client\<lparr>recv_buffer := buf\<rparr>) of
        None \<Rightarrow> None
      | Some (client1, tr) \<Rightarrow>
          map_option (\<lambda>(client2, rs). (client2, ctrl_replies tr @ rs)) (cwd_seq P client1 bufs))"

fun cdup_seq :: "nat \<Rightarrow> ClientInfo \<Rightarrow> ClientInfo option" where
  "cdup_seq 0 client = Some client"
| "cdup_seq (Suc n) client =
     (case cmd_CDUP_func client of
        None \<Rightarrow> None
      | Some (client1, tr) \<Rightarrow> cdup_seq n client1)"

text \<open>
  A path component: a non-empty name without \<^verbatim>\<open>'/'\<close>. The virtual path reached
  from \<^verbatim>\<open>/\<close> by descending through the given components one at a time is \<^verbatim>\<open>/\<close>,
  then \<^verbatim>\<open>/a/\<close> (a mount root), then \<^verbatim>\<open>/a/b\<close>, \<^verbatim>\<open>/a/b/c\<close>, ...
\<close>

definition is_component :: "string \<Rightarrow> bool" where
  "is_component a \<longleftrightarrow> a \<noteq> [] \<and> CHR ''/'' \<notin> set a"

definition slash_join :: "string list \<Rightarrow> string" where
  "slash_join as = concat (map (\<lambda>x. ''/'' @ x) as)"

definition path_of :: "string list \<Rightarrow> string" where
  "path_of as =
     (if as = [] then ''/''
      else if length as = 1 then slash_join as @ ''/''
      else slash_join as)"

text \<open>
  One level down: \<open>child_path p a\<close> is the path with the component \<open>a\<close> appended to
  \<open>p\<close> (no second separator after \<^verbatim>\<open>/\<close> or a mount root, and the mount root itself
  ends with one); \<open>one_level_below old new\<close> holds when \<open>new\<close> is such a child of
  \<open>old\<close>.
\<close>

definition child_path :: "string \<Rightarrow> string \<Rightarrow> string" where
  "child_path p a =
     (if p = ''/'' then ''/'' @ a @ ''/''
      else if path_is_at_root p then p @ a
      else p @ ''/'' @ a)"

definition one_level_below :: "string \<Rightarrow> string \<Rightarrow> bool" where
  "one_level_below old new \<longleftrightarrow>
     (let a = (if old = ''/'' then butlast (drop 1 new)
               else if path_is_at_root old then drop (length old) new
               else drop (Suc (length old)) new)
      in is_component a \<and> new = child_path old a)"

text \<open>
  A session receiving a sequence of \<^verbatim>\<open>CWD\<close> lines each of which succeeds (the reply is
  250) and moves the current path one level down; the result is the client after the
  last line, and \<open>None\<close> when some line does anything else.
\<close>

fun cwd_descents :: "platform \<Rightarrow> ClientInfo \<Rightarrow> string list \<Rightarrow> ClientInfo option" where
  "cwd_descents P client [] = Some client"
| "cwd_descents P client (buf # bufs) =
     (case cmd_CWD_func P (client\<lparr>recv_buffer := buf\<rparr>) of
        None \<Rightarrow> None
      | Some (client1, tr) \<Rightarrow>
          if ctrl_replies tr = [''250 Requested file action okay, completed.\<newline>''] \<and>
             one_level_below (cur_path client) (cur_path client1)
          then cwd_descents P client1 bufs
          else None)"

text \<open>
  A platform, the device list as \<^verbatim>\<open>ftpvita_init\<close> leaves it and a freshly accepted
  client, for concrete runs.
\<close>

definition demo_platform :: platform where
  "demo_platform =
     \<lparr>io_dopen = (\<lambda>p. 3), io_open = (\<lambda>p m. 4), io_remove = (\<lambda>p. 0), io_rmdir = (\<lambda>p. 0),
      io_mkdir = (\<lambda>p. 0), io_rename = (\<lambda>s d. 0),
      io_getstat = (\<lambda>p. (0, \<lparr>st_isdir = False, st_size = 0,
                               st_ctime = (1, 1, 0, 0), st_mtime = (1, 1, 0, 0)\<rparr>)),
      io_dread = [(0, \<lparr>d_stat = \<lparr>st_isdir = False, st_size = 0,
                               st_ctime = (1, 1, 0, 0), st_mtime = (1, 1, 0, 0)\<rparr>,
                       d_name = ''''\<rparr>)],
      io_read = [0], net_recv = [0], net_socket = 5, net_accept = 6,
      picked_sin_port = 0x1234, malloc_ok = True, stack_cmd_path = ''''\<rparr>"

definition demo_devices :: "device list" where
  "demo_devices = replicate 16 \<lparr>name = '''', valid = 0\<rparr>"

definition demo_client :: ClientInfo where
  "demo_client =
     \<lparr>num = 0, thid = 1, ctrl_sockfd = 2, data_sockfd = 0,
      data_con_type = FTP_DATA_CONNECTION_NONE, data_sin_addr = 0, data_sin_port = 0,
      pasv_sockfd = 0, recv_buffer = '''', cur_path = ''/'', rename_path = ''''\<rparr>"

declare dec.simps [simp del]
declare send_devices_from.simps [simp del]

section \<open>Properties\<close>

subsection \<open>Control replies\<close>

lemma fits_dotdot: "fits ''..''"
  by (simp add: fits_def PATH_MAX_def)


lemma ctrl_replies_Nil: "ctrl_replies [] = []"
  by (simp add: ctrl_replies_def)

lemma ctrl_replies_Cons:
  "ctrl_replies (e # es) = (case e of SendCtrl s \<Rightarrow> [s] | _ \<Rightarrow> []) @ ctrl_replies es"
  by (simp add: ctrl_replies_def)



subsection \<open>The PASV reply\<close>

lemma unat_low_byte: "unat (ucast ((w :: 32 word) AND 0xFF) :: 8 word) = unat w mod 256"
proof -
  have "w AND 0xFF = take_bit 8 w"
    by (simp add: take_bit_eq_mask mask_eq_exp_minus_1)
  then have "unat (ucast (w AND 0xFF) :: 8 word) = take_bit 8 (take_bit 8 (unat w))"
    by (simp add: unsigned_ucast_eq unsigned_take_bit_eq)
  then show ?thesis
    by (simp add: take_bit_eq_mod)
qed

lemma unat_shift: "unat (drop_bit n (a :: 32 word)) = unat a div 2 ^ n"
proof -
  have "unat (drop_bit n a) = drop_bit n (unat a)"
    by (rule unat_drop_bit_eq)
  also have "\<dots> = unat a div 2 ^ n"
    by (rule drop_bit_eq_div)
  finally show ?thesis .
qed

lemma unat_byte0: "unat (ucast (drop_bit 0 (a :: 32 word) AND 0xFF) :: 8 word) = unat a mod 256"
  by (simp only: unat_low_byte unat_shift) simp

lemma unat_byte1: "unat (ucast (drop_bit 8 (a :: 32 word) AND 0xFF) :: 8 word) = unat a div 256 mod 256"
  by (simp only: unat_low_byte unat_shift) simp

lemma unat_byte2: "unat (ucast (drop_bit 16 (a :: 32 word) AND 0xFF) :: 8 word) = unat a div 65536 mod 256"
  by (simp only: unat_low_byte unat_shift) simp

lemma unat_byte3: "unat (ucast (drop_bit 24 (a :: 32 word) AND 0xFF) :: 8 word) = unat a div 16777216"
proof -
  have "unat a < 2 ^ 32" using unsigned_less [of a] by simp
  then have "unat a div 16777216 < 256" by simp
  then show ?thesis by (simp only: unat_low_byte unat_shift) simp
qed

lemma unat_ucast_16_32: "unat (ucast (p :: 16 word) :: 32 word) = unat p"
proof -
  have "unat p < 2 ^ 16" using unsigned_less [of p] by simp
  then show ?thesis by (simp add: unsigned_ucast_eq take_bit_eq_mod)
qed

lemma unat_port0: "unat (ucast (drop_bit 0 (ucast (p :: 16 word) :: 32 word) AND 0xFF) :: 8 word) = unat p mod 256"
  by (simp only: unat_low_byte unat_shift unat_ucast_16_32) simp

lemma unat_port1: "unat (ucast (drop_bit 8 (ucast (p :: 16 word) :: 32 word) AND 0xFF) :: 8 word) = unat p div 256"
proof -
  have "unat p < 2 ^ 16" using unsigned_less [of p] by simp
  then have "unat p div 256 < 256" by simp
  then show ?thesis by (simp only: unat_low_byte unat_shift unat_ucast_16_32) simp
qed

lemma hhu_port:
  "hhu (drop_bit 0 (ucast p :: 32 word) AND 0xFF) = dec (unat (p :: 16 word) mod 256)"
  "hhu (drop_bit 8 (ucast p :: 32 word) AND 0xFF) = dec (unat p div 256)"
  unfolding hhu_def
  by (simp_all only: unat_port0 unat_port1)

lemma hhu_addr:
  "hhu (drop_bit 0 a AND 0xFF) = dec (unat a mod 256)"
  "hhu (drop_bit 8 a AND 0xFF) = dec (unat a div 256 mod 256)"
  "hhu (drop_bit 16 a AND 0xFF) = dec (unat a div 65536 mod 256)"
  "hhu (drop_bit 24 a AND 0xFF) = dec (unat a div 16777216)"
  unfolding hhu_def
  by (simp_all only: unat_byte0 unat_byte1 unat_byte2 unat_byte3)

lemma pasv_reply_bytes:
  "pasv_reply a p =
     ''227 Entering Passive Mode ('' @
        dec (unat a mod 256) @ '','' @
        dec (unat a div 256 mod 256) @ '','' @
        dec (unat a div 65536 mod 256) @ '','' @
        dec (unat a div 16777216) @ '','' @
        dec (unat p mod 256) @ '','' @
        dec (unat p div 256) @ '')\<newline>''"
  apply (simp only: pasv_reply_def hhu_port)
  apply (simp only: hhu_addr)
  done

lemma pasv_reply_raw_field:
  "ctrl_replies (snd (cmd_PASV_func vita_addr P client)) =
     [''227 Entering Passive Mode ('' @
        dec (unat vita_addr mod 256) @ '','' @
        dec (unat vita_addr div 256 mod 256) @ '','' @
        dec (unat vita_addr div 65536 mod 256) @ '','' @
        dec (unat vita_addr div 16777216) @ '','' @
        dec (unat (picked_sin_port P) mod 256) @ '','' @
        dec (unat (picked_sin_port P) div 256) @ '')\<newline>'']"
proof -
  have "ctrl_replies (snd (cmd_PASV_func vita_addr P client)) =
          [pasv_reply vita_addr (picked_sin_port P)]"
    by (simp add: cmd_PASV_func_def Let_def ctrl_replies_def)
  then show ?thesis
    by (simp only: pasv_reply_bytes)
qed

text \<open>The two bytes of a port in network byte order, read as the little-endian host reads them.\<close>

lemma unat_sceNetHtons:
  "unat (sceNetHtons port) = unat port mod 256 * 256 + unat port div 256"
proof -
  have "unat port < 2 ^ 16"
    using unsigned_less [of port] by simp
  then have "unat port div 256 < 256"
    by simp
  moreover have "unat port mod 256 < 256"
    by simp
  ultimately have bound: "unat port mod 256 * 256 + unat port div 256 < 65536"
    by linarith
  have wrap: "unat (of_nat n :: 16 word) = n mod 65536" for n
    by (simp add: unsigned_of_nat take_bit_eq_mod)
  show ?thesis
    unfolding sceNetHtons_def by (subst wrap) (use bound in simp)
qed

lemma sceNetHtons_bytes:
  "unat (sceNetHtons port) mod 256 = unat port div 256"
  "unat (sceNetHtons port) div 256 = unat port mod 256"
proof -
  have "unat port < 2 ^ 16"
    using unsigned_less [of port] by simp
  then have d: "unat port div 256 < 256"
    by simp
  from d show "unat (sceNetHtons port) mod 256 = unat port div 256"
    by (simp add: unat_sceNetHtons)
  from d show "unat (sceNetHtons port) div 256 = unat port mod 256"
    by (simp add: unat_sceNetHtons)
qed

lemma pasv_reply_htons:
  assumes "picked_sin_port P = sceNetHtons port"
  shows "ctrl_replies (snd (cmd_PASV_func vita_addr P client)) =
     [''227 Entering Passive Mode ('' @
        dec (unat vita_addr mod 256) @ '','' @
        dec (unat vita_addr div 256 mod 256) @ '','' @
        dec (unat vita_addr div 65536 mod 256) @ '','' @
        dec (unat vita_addr div 16777216) @ '','' @
        dec (unat port div 256) @ '','' @
        dec (unat port mod 256) @ '')\<newline>'']"
  using pasv_reply_raw_field [of vita_addr P client] assms
  by (simp only: sceNetHtons_bytes)

text \<open>
  C9 as the code has it. The only control line PASV sends is the 227 reply. It lists
  the four bytes of the server address \<^verbatim>\<open>vita_addr.s_addr\<close> from the lowest byte
  upwards, and then the two bytes of \<^verbatim>\<open>sin_port\<close> of the listening data socket as
  they lie in memory. \<^verbatim>\<open>sin_port\<close> holds the chosen port in network byte order, so
  for the port number the reply gives the high byte first and the low byte second:
  \<open>p1 = port div 256\<close>, \<open>p2 = port mod 256\<close>.
\<close>

theorem pasv_reply_port_order:
  assumes "picked_sin_port P = sceNetHtons port"
  shows "ctrl_replies (snd (cmd_PASV_func vita_addr P client)) =
     [''227 Entering Passive Mode ('' @
        dec (unat vita_addr mod 256) @ '','' @
        dec (unat vita_addr div 256 mod 256) @ '','' @
        dec (unat vita_addr div 65536 mod 256) @ '','' @
        dec (unat vita_addr div 16777216) @ '','' @
        dec (unat port div 256) @ '','' @
        dec (unat port mod 256) @ '')\<newline>'']"
  using assms by (rule pasv_reply_htons)

theorem pasv_reply_port_order_witness:
  "ctrl_replies
     (snd (cmd_PASV_func 0x0A00A8C0 (demo_platform\<lparr>picked_sin_port := sceNetHtons 1337\<rparr>)
        demo_client)) =
     [''227 Entering Passive Mode (192,168,0,10,5,57)\<newline>'']"
proof -
  have p: "picked_sin_port (demo_platform\<lparr>picked_sin_port := sceNetHtons 1337\<rparr>) =
      sceNetHtons 1337"
    by simp
  show ?thesis
    using pasv_reply_port_order [OF p, of "0x0A00A8C0" demo_client]
    by (simp add: dec.simps)
qed

text \<open>
  C9 as the specification words it fails: when the chosen port is 4660 (high byte
  18, low byte 52) the reply ends in \<^verbatim>\<open>18,52\<close>, while \<open>port mod 256\<close> then
  \<open>port div 256\<close> would be \<^verbatim>\<open>52,18\<close>.
\<close>

theorem pasv_port_bytes_counterexample:
  "ctrl_replies
     (snd (cmd_PASV_func 0x0A00A8C0 (demo_platform\<lparr>picked_sin_port := sceNetHtons 4660\<rparr>)
        demo_client)) =
     [''227 Entering Passive Mode (192,168,0,10,18,52)\<newline>''] \<and>
   (4660 :: nat) mod 256 = 52 \<and> (4660 :: nat) div 256 = 18"
proof -
  have p: "picked_sin_port (demo_platform\<lparr>picked_sin_port := sceNetHtons 4660\<rparr>) =
      sceNetHtons 4660"
    by simp
  show ?thesis
    using pasv_reply_htons [OF p, of "0x0A00A8C0" demo_client]
    by (simp add: dec.simps)
qed

subsection \<open>Aborted uploads\<close>






lemma find_nonpos: "List.find (\<lambda>r. r \<le> (0::int)) rs = Some e \<Longrightarrow> e \<le> 0"
  by (auto simp: find_Some_iff)






subsection \<open>The device list\<close>









subsection \<open>The order of the steps of a transfer\<close>

lemma remdups_adj_run: "remdups_adj (x # replicate n x @ ys) = remdups_adj (x # ys)"
  by (induction n) simp_all

lemma remdups_adj_run_end: "remdups_adj (x # replicate n x) = [x]"
  using remdups_adj_run [of x n "[]"] by simp

lemma step_of_simps:
  "step_of (SendCtrl s) = (if take 3 s = ''150'' then [Reply150] else [FinalStatus])"
  "step_of (SendDataMsg fd l) = [Stream]"
  "step_of (SendDataRaw fd w) = [Stream]"
  "step_of (RecvData fd) = [Stream]"
  "step_of (IoDread d) = [Stream]"
  "step_of (IoRead fd) = [Stream]"
  "step_of (IoWrite fd k) = [Stream]"
  "step_of (IoGetstat p) = [Stream]"
  "step_of (NetConnect fd) = [Establish]"
  "step_of (NetAccept fd fd') = [Establish]"
  "step_of (NetSocketClose fd) = [CloseData]"
  "step_of (IoDopen p) = [Validate]"
  "step_of (IoOpen p m) = [Validate]"
  "step_of (IoLseekEnd fd) = [Validate]"
  "step_of (IoDclose d) = [CloseFile]"
  "step_of (IoClose fd) = [CloseFile]"
  "step_of (IoRemove p) = [RemovePartial]"
  "step_of Malloc = []"
  "step_of Free = []"
  by (simp_all add: step_of_def)

lemma steps_open:
  "concat (map step_of (snd (client_open_data_connection P c))) = [Establish]"
  by (simp add: client_open_data_connection_def step_of_simps)

lemma steps_close:
  "\<exists>k. concat (map step_of (snd (client_close_data_connection c))) =
         CloseData # replicate k CloseData"
proof (cases "data_con_type c = FTP_DATA_CONNECTION_PASSIVE")
  case True
  then have "concat (map step_of (snd (client_close_data_connection c))) =
               CloseData # replicate 1 CloseData"
    by (simp add: client_close_data_connection_def step_of_simps)
  then show ?thesis ..
next
  case False
  then have "concat (map step_of (snd (client_close_data_connection c))) =
               CloseData # replicate 0 CloseData"
    by (simp add: client_close_data_connection_def step_of_simps)
  then show ?thesis ..
qed

lemma close_resets_mode:
  "data_con_type (fst (client_close_data_connection c)) = FTP_DATA_CONNECTION_NONE"
  by (simp add: client_close_data_connection_def)

lemma read_loop_ends:
  "0 \<in> set rs \<Longrightarrow>
     \<exists>t n. read_loop fd dfd rs = Some t \<and> concat (map step_of t) = Stream # replicate n Stream"
proof (induction rs)
  case Nil
  then show ?case by simp
next
  case (Cons r rs)
  show ?case
  proof (cases "r = 0")
    case True
    then have "read_loop fd dfd (r # rs) = Some [IoRead fd] \<and>
               concat (map step_of [IoRead fd]) = Stream # replicate 0 Stream"
      by (simp add: step_of_simps)
    then show ?thesis by blast
  next
    case False
    with Cons.prems have "0 \<in> set rs" by auto
    from Cons.IH [OF this] obtain t n where
      t: "read_loop fd dfd rs = Some t" "concat (map step_of t) = Stream # replicate n Stream"
      by blast
    from False have "0 < r"
      by (simp add: word_gt_0)
    with t have "read_loop fd dfd (r # rs) = Some ([IoRead fd, SendDataRaw dfd r] @ t) \<and>
                 concat (map step_of ([IoRead fd, SendDataRaw dfd r] @ t)) =
                   Stream # replicate (Suc (Suc n)) Stream"
      by (simp add: step_of_simps)
    then show ?thesis by blast
  qed
qed

lemma recv_loop_steps:
  "List.find (\<lambda>r. r \<le> 0) rs = Some e \<Longrightarrow>
     \<exists>t n. recv_loop fd dfd rs = Some (t, e) \<and>
           concat (map step_of t) = Stream # replicate n Stream"
proof (induction rs)
  case Nil
  then show ?case by simp
next
  case (Cons r rs)
  show ?case
  proof (cases "r > 0")
    case True
    with Cons.prems have "List.find (\<lambda>r. r \<le> 0) rs = Some e" by simp
    from Cons.IH [OF this] obtain t n where
      t: "recv_loop fd dfd rs = Some (t, e)" "concat (map step_of t) = Stream # replicate n Stream"
      by blast
    with True have "recv_loop fd dfd (r # rs) = Some ([RecvData dfd, IoWrite fd r] @ t, e) \<and>
        concat (map step_of ([RecvData dfd, IoWrite fd r] @ t)) =
          Stream # replicate (Suc (Suc n)) Stream"
      by (simp add: step_of_simps)
    then show ?thesis by blast
  next
    case False
    with Cons.prems have "e = r" by simp
    with False have "recv_loop fd dfd (r # rs) = Some ([RecvData dfd], e) \<and>
        concat (map step_of [RecvData dfd]) = Stream # replicate 0 Stream"
      by (simp add: step_of_simps)
    then show ?thesis by blast
  qed
qed

lemma dread_loop_ends:
  "\<exists>x \<in> set rs. fst x \<le> 0 \<Longrightarrow>
     \<exists>t n. dread_loop dir fd rs = Some t \<and>
           concat (map step_of t) = Stream # replicate n Stream"
proof (induction rs)
  case Nil
  then show ?case by simp
next
  case (Cons x rs)
  obtain r de where x: "x = (r, de)" by (cases x)
  show ?case
  proof (cases "r > 0")
    case True
    with Cons.prems x have "\<exists>x \<in> set rs. fst x \<le> 0" by auto
    from Cons.IH [OF this] obtain t n where
      t: "dread_loop dir fd rs = Some t" "concat (map step_of t) = Stream # replicate n Stream"
      by blast
    with True x have "dread_loop dir fd (x # rs) =
          Some ([IoDread dir, SendDataMsg fd (dirent_line de)] @ t) \<and>
        concat (map step_of ([IoDread dir, SendDataMsg fd (dirent_line de)] @ t)) =
          Stream # replicate (Suc (Suc n)) Stream"
      by (simp add: step_of_simps)
    then show ?thesis by blast
  next
    case False
    with x have "dread_loop dir fd (x # rs) = Some [IoDread dir] \<and>
        concat (map step_of [IoDread dir]) = Stream # replicate 0 Stream"
      by (simp add: step_of_simps)
    then show ?thesis by blast
  qed
qed

lemma send_devices_steps:
  "\<exists>n. concat (map step_of (send_devices_from P fd dl i)) = replicate n Stream \<and>
       (n = 0 \<longleftrightarrow> (\<forall>j. i \<le> j \<and> j < MAX_DEVICES \<and> j < length dl \<longrightarrow> valid (dl ! j) = 0))"
proof (induction P fd dl i rule: send_devices_from.induct)
  case (1 P fd dl i)
  show ?case
  proof (cases "i < MAX_DEVICES \<and> i < length dl")
    case False
    then have "concat (map step_of (send_devices_from P fd dl i)) = replicate 0 Stream"
      by (subst send_devices_from.simps) auto
    with False show ?thesis
      by (intro exI [of _ 0]) auto
  next
    case True
    from "1.IH" [OF True] obtain n where
      n: "concat (map step_of (send_devices_from P fd dl (Suc i))) = replicate n Stream"
         "n = 0 \<longleftrightarrow> (\<forall>j. Suc i \<le> j \<and> j < MAX_DEVICES \<and> j < length dl \<longrightarrow> valid (dl ! j) = 0)"
      by blast
    have split: "(\<forall>j. i \<le> j \<and> j < MAX_DEVICES \<and> j < length dl \<longrightarrow> valid (dl ! j) = 0) \<longleftrightarrow>
        valid (dl ! i) = 0 \<and>
        (\<forall>j. Suc i \<le> j \<and> j < MAX_DEVICES \<and> j < length dl \<longrightarrow> valid (dl ! j) = 0)"
      using True by (metis Suc_leI le_neq_implies_less order_refl Suc_leD)
    show ?thesis
    proof (cases "valid (dl ! i) = 0")
      case v: True
      with True n(1) have "concat (map step_of (send_devices_from P fd dl i)) = replicate n Stream"
        by (subst send_devices_from.simps) simp
      with n(2) split v show ?thesis
        by (intro exI [of _ n]) simp
    next
      case v: False
      with True n(1) have "concat (map step_of (send_devices_from P fd dl i)) =
          replicate (Suc (Suc n)) Stream"
        by (subst send_devices_from.simps) (simp add: step_of_simps)
      with split v show ?thesis
        by (intro exI [of _ "Suc (Suc n)"]) simp
    qed
  qed
qed

lemma send_file_steps:
  assumes "malloc_ok P" and "0 \<le> io_open P path O_RDONLY" and "0 \<in> set (io_read P)"
  shows "\<exists>client' tr. send_file P client path = Some (client', tr) \<and>
           steps tr = [Validate, Establish, Reply150, Stream, CloseFile, FinalStatus, CloseData] \<and>
           data_con_type client' = FTP_DATA_CONNECTION_NONE"
proof -
  obtain c1 t1 where o: "client_open_data_connection P client = (c1, t1)"
    by (cases "client_open_data_connection P client")
  obtain c2 t3 where c: "client_close_data_connection c1 = (c2, t3)"
    by (cases "client_close_data_connection c1")
  from read_loop_ends [OF assms(3)] obtain t n where
    t: "read_loop (io_open P path O_RDONLY) (data_fd c1) (io_read P) = Some t"
       "concat (map step_of t) = Stream # replicate n Stream"
    by blast
  have t1: "concat (map step_of t1) = [Establish]"
    using o steps_open [of P client] by simp
  obtain k where t3: "concat (map step_of t3) = CloseData # replicate k CloseData"
    using c steps_close [of c1] by auto
  have m: "data_con_type c2 = FTP_DATA_CONNECTION_NONE"
    using c close_resets_mode [of c1] by simp
  show ?thesis
    using assms(1,2) o c t t1 t3 m
    by (simp add: send_file_def Let_def steps_def step_of_simps remdups_adj_run remdups_adj_run_end)
qed

lemma receive_file_steps:
  assumes "malloc_ok P" and "0 \<le> io_open P path O_CREAT_WRONLY_TRUNC"
    and "List.find (\<lambda>r. r \<le> 0) (net_recv P) = Some e"
  shows "\<exists>client' tr. receive_file P client path = Some (client', tr) \<and>
           steps tr =
             [Validate, Establish, Reply150, Stream, CloseFile] @
             (if e < 0 then [RemovePartial] else []) @ [FinalStatus, CloseData] \<and>
           data_con_type client' = FTP_DATA_CONNECTION_NONE"
proof -
  obtain c1 t1 where o: "client_open_data_connection P client = (c1, t1)"
    by (cases "client_open_data_connection P client")
  obtain c2 t3 where c: "client_close_data_connection c1 = (c2, t3)"
    by (cases "client_close_data_connection c1")
  from recv_loop_steps [OF assms(3)] obtain t n where
    t: "recv_loop (io_open P path O_CREAT_WRONLY_TRUNC) (data_fd c1) (net_recv P) = Some (t, e)"
       "concat (map step_of t) = Stream # replicate n Stream"
    by blast
  have t1: "concat (map step_of t1) = [Establish]"
    using o steps_open [of P client] by simp
  obtain k where t3: "concat (map step_of t3) = CloseData # replicate k CloseData"
    using c steps_close [of c1] by auto
  have m: "data_con_type c2 = FTP_DATA_CONNECTION_NONE"
    using c close_resets_mode [of c1] by simp
  have e: "e \<le> 0"
    using assms(3) by (rule find_nonpos)
  show ?thesis
    using assms(1,2) o c t t1 t3 m e
    by (auto simp: receive_file_def Let_def steps_def step_of_simps remdups_adj_run remdups_adj_run_end)
qed

lemma append_file_steps:
  assumes "malloc_ok P" and "0 \<le> io_open P path O_WRONLY_CREAT"
    and "List.find (\<lambda>r. r \<le> 0) (net_recv P) = Some e"
  shows "\<exists>client' tr. append_file P client path = Some (client', tr) \<and>
           steps tr =
             [Validate, Establish, Reply150, Stream, CloseFile] @
             (if e < 0 then [RemovePartial] else []) @ [FinalStatus, CloseData] \<and>
           data_con_type client' = FTP_DATA_CONNECTION_NONE"
proof -
  obtain c1 t1 where o: "client_open_data_connection P client = (c1, t1)"
    by (cases "client_open_data_connection P client")
  obtain c2 t3 where c: "client_close_data_connection c1 = (c2, t3)"
    by (cases "client_close_data_connection c1")
  from recv_loop_steps [OF assms(3)] obtain t n where
    t: "recv_loop (io_open P path O_WRONLY_CREAT) (data_fd c1) (net_recv P) = Some (t, e)"
       "concat (map step_of t) = Stream # replicate n Stream"
    by blast
  have t1: "concat (map step_of t1) = [Establish]"
    using o steps_open [of P client] by simp
  obtain k where t3: "concat (map step_of t3) = CloseData # replicate k CloseData"
    using c steps_close [of c1] by auto
  have m: "data_con_type c2 = FTP_DATA_CONNECTION_NONE"
    using c close_resets_mode [of c1] by simp
  have e: "e \<le> 0"
    using assms(3) by (rule find_nonpos)
  show ?thesis
    using assms(1,2) o c t t1 t3 m e
    by (auto simp: append_file_def Let_def steps_def step_of_simps remdups_adj_run remdups_adj_run_end)
qed

lemma send_LIST_dir_steps:
  assumes "path \<noteq> ''/''" and "0 \<le> io_dopen P (get_vita_path path)"
    and "\<exists>x \<in> set (io_dread P). fst x \<le> 0"
  shows "\<exists>client' tr. send_LIST dl P client path = Some (client', tr) \<and>
           steps tr = spec_transfer_order \<and>
           data_con_type client' = FTP_DATA_CONNECTION_NONE"
proof -
  obtain c1 t1 where o: "client_open_data_connection P client = (c1, t1)"
    by (cases "client_open_data_connection P client")
  obtain c2 t3 where c: "client_close_data_connection c1 = (c2, t3)"
    by (cases "client_close_data_connection c1")
  from dread_loop_ends [OF assms(3)] obtain t n where
    t: "dread_loop (io_dopen P (get_vita_path path)) (data_fd c1) (io_dread P) = Some t"
       "concat (map step_of t) = Stream # replicate n Stream"
    by blast
  have t1: "concat (map step_of t1) = [Establish]"
    using o steps_open [of P client] by simp
  obtain k where t3: "concat (map step_of t3) = CloseData # replicate k CloseData"
    using c steps_close [of c1] by auto
  have m: "data_con_type c2 = FTP_DATA_CONNECTION_NONE"
    using c close_resets_mode [of c1] by simp
  show ?thesis
    using assms(1,2) o c t t1 t3 m
    by (simp add: send_LIST_def Let_def steps_def step_of_simps remdups_adj_run remdups_adj_run_end
        spec_transfer_order_def)
qed

lemma send_LIST_root_steps:
  "\<exists>client' tr. send_LIST dl P client ''/'' = Some (client', tr) \<and>
     steps tr =
       [Reply150, Establish] @
       (if \<exists>j. j < MAX_DEVICES \<and> j < length dl \<and> valid (dl ! j) \<noteq> 0 then [Stream] else []) @
       [CloseData, FinalStatus] \<and>
     data_con_type client' = FTP_DATA_CONNECTION_NONE"
proof -
  obtain c1 t1 where o: "client_open_data_connection P client = (c1, t1)"
    by (cases "client_open_data_connection P client")
  obtain c2 t3 where c: "client_close_data_connection c1 = (c2, t3)"
    by (cases "client_close_data_connection c1")
  from send_devices_steps [of P "data_fd c1" dl 0] obtain n where
    n: "concat (map step_of (send_devices_from P (data_fd c1) dl 0)) = replicate n Stream"
       "n = 0 \<longleftrightarrow> (\<forall>j. j < MAX_DEVICES \<and> j < length dl \<longrightarrow> valid (dl ! j) = 0)"
    by auto
  have t1: "concat (map step_of t1) = [Establish]"
    using o steps_open [of P client] by simp
  obtain k where t3: "concat (map step_of t3) = CloseData # replicate k CloseData"
    using c steps_close [of c1] by auto
  have m: "data_con_type c2 = FTP_DATA_CONNECTION_NONE"
    using c close_resets_mode [of c1] by simp
  show ?thesis
  proof (cases n)
    case 0
    with n(2) have cond:
      "(if \<exists>j. j < MAX_DEVICES \<and> j < length dl \<and> valid (dl ! j) \<noteq> 0 then [Stream] else []) = []"
      by auto
    from 0 n(1) have sd: "concat (map step_of (send_devices_from P (data_fd c1) dl 0)) = []"
      by simp
    show ?thesis
      unfolding cond using o c t1 t3 m
      by (simp add: send_LIST_def Let_def steps_def step_of_simps remdups_adj_run
          remdups_adj_run_end sd)
  next
    case (Suc n')
    with n(2) have cond:
      "(if \<exists>j. j < MAX_DEVICES \<and> j < length dl \<and> valid (dl ! j) \<noteq> 0 then [Stream] else []) =
         [Stream]"
      by auto
    from Suc n(1) have sd:
      "concat (map step_of (send_devices_from P (data_fd c1) dl 0)) = Stream # replicate n' Stream"
      by simp
    show ?thesis
      unfolding cond using o c t1 t3 m
      by (simp add: send_LIST_def Let_def steps_def step_of_simps remdups_adj_run
          remdups_adj_run_end sd)
  qed
qed

text \<open>
  The lemmas above give the steps of every run whose transfer loop ends: \<^verbatim>\<open>send_LIST\<close>
  keeps the order validate, 150 reply, establish, stream, close the directory, close
  the data channel, final status; \<^verbatim>\<open>send_file\<close>, \<^verbatim>\<open>receive_file\<close> and
  \<^verbatim>\<open>append_file\<close> establish the data channel before the 150 reply and send the final
  status before they close the data channel.
\<close>

text \<open>
  C2 does not hold of the code. On a session in passive mode, \<^verbatim>\<open>RETR\<close> accepts the
  data connection before it sends the 150 reply and sends the 226 reply before it
  closes the two data sockets; \<^verbatim>\<open>STOR\<close> and \<^verbatim>\<open>APPE\<close> do the same. \<^verbatim>\<open>LIST\<close> on
  the same session keeps the order of the specification.
\<close>

theorem file_transfer_order_deviates:
  "map_option snd
     (cmd_RETR_func demo_platform
        ((fst (cmd_PASV_func 0 demo_platform demo_client))\<lparr>recv_buffer := ''RETR /ux0:/f''\<rparr>)) =
     Some [IoOpen (Some ''ux0:/f'') O_RDONLY, Malloc, NetAccept 5 6,
           SendCtrl ''150 Opening Image mode data transfer.\<newline>'',
           IoRead 4, IoClose 4, Free,
           SendCtrl ''226 Transfer completed.\<newline>'',
           NetSocketClose 5, NetSocketClose 6] \<and>
   map_option (\<lambda>r. steps (snd r))
     (cmd_RETR_func demo_platform
        ((fst (cmd_PASV_func 0 demo_platform demo_client))\<lparr>recv_buffer := ''RETR /ux0:/f''\<rparr>)) =
     Some [Validate, Establish, Reply150, Stream, CloseFile, FinalStatus, CloseData] \<and>
   map_option (\<lambda>r. steps (snd r))
     (cmd_STOR_func demo_platform
        ((fst (cmd_PASV_func 0 demo_platform demo_client))\<lparr>recv_buffer := ''STOR /ux0:/f''\<rparr>)) =
     Some [Validate, Establish, Reply150, Stream, CloseFile, FinalStatus, CloseData] \<and>
   map_option (\<lambda>r. steps (snd r))
     (cmd_APPE_func demo_platform
        ((fst (cmd_PASV_func 0 demo_platform demo_client))\<lparr>recv_buffer := ''APPE /ux0:/f''\<rparr>)) =
     Some [Validate, Establish, Reply150, Stream, CloseFile, FinalStatus, CloseData] \<and>
   map_option (\<lambda>r. steps (snd r))
     (cmd_LIST_func demo_devices demo_platform
        ((fst (cmd_PASV_func 0 demo_platform demo_client))\<lparr>recv_buffer := ''LIST /ux0:/''\<rparr>)) =
     Some spec_transfer_order \<and>
   [Validate, Establish, Reply150, Stream, CloseFile, FinalStatus, CloseData] \<noteq> spec_transfer_order"
  by (simp add: cmd_RETR_func_def send_file_def cmd_STOR_func_def receive_file_def
      cmd_APPE_func_def append_file_def cmd_LIST_func_def send_LIST_def
      gen_filepath_def sscanf_nonspace_arg_def sscanf_word_arg_def
      get_vita_path_def starts_with_slash_def isspace_def not_crlftab_def
      cmd_PASV_func_def client_open_data_connection_def client_close_data_connection_def
      data_fd_def demo_platform_def demo_client_def Let_def steps_def step_of_def
      spec_transfer_order_def)

subsection \<open>CWD: the directory probe\<close>

lemma cwd_tmp_path_fits: "cwd_tmp_path client arg = Some tmp \<Longrightarrow> fits tmp"
  by (auto simp: cwd_tmp_path_def Let_def split: if_splits)

text \<open>
  Every \<^verbatim>\<open>CWD\<close> whose argument is neither \<^verbatim>\<open>/\<close> nor \<^verbatim>\<open>..\<close>, whose argument and
  resulting path fit their buffers and whose resulting path is not \<^verbatim>\<open>/\<close> probes the
  resulting path first, a mount root such as \<^verbatim>\<open>/ux0:/\<close> included.
\<close>

lemma cwd_probe_any_target:
  assumes "sscanf_word_arg (recv_buffer client) = Some arg" and "fits arg"
    and "arg \<noteq> ''/''" and "arg \<noteq> ''..''"
    and "cwd_tmp_path client arg = Some tmp" and "tmp \<noteq> ''/''"
  shows "\<exists>client' rest.
     cmd_CWD_func P client = Some (client', IoDopen (get_vita_path tmp) # rest) \<and>
     (if io_dopen P (get_vita_path tmp) < 0
      then client' = client \<and> rest = [SendCtrl ''550 Invalid directory.\<newline>'']
      else client' = client\<lparr>cur_path := tmp\<rparr> \<and>
           rest = [IoDclose (io_dopen P (get_vita_path tmp)),
                   SendCtrl ''250 Requested file action okay, completed.\<newline>''])"
  using assms by (auto simp: cmd_CWD_func_def Let_def dest: cwd_tmp_path_fits)

text \<open>\<^verbatim>\<open>CWD ..\<close> makes no probe: the current path becomes what \<^verbatim>\<open>dir_up\<close> computes.\<close>

lemma cwd_dotdot_no_probe:
  assumes "sscanf_word_arg (recv_buffer client) = Some ''..''"
  shows "cmd_CWD_func P client =
     map_option
       (\<lambda>p. (client\<lparr>cur_path := p\<rparr>,
             [SendCtrl ''250 Requested file action okay, completed.\<newline>'']))
       (dir_up (cur_path client))"
  using assms by (cases "dir_up (cur_path client)") (auto simp: cmd_CWD_func_def fits_dotdot)

text \<open>
  C3 as the code has it. Take a \<^verbatim>\<open>CWD\<close> whose argument is not \<^verbatim>\<open>..\<close>, whose argument
  and resulting path fit their \<^verbatim>\<open>PATH_MAX\<close> buffers, and whose resulting path is neither
  \<^verbatim>\<open>/\<close> nor a mount root. It first probes the resulting path with \<^verbatim>\<open>sceIoDopen\<close>;
  when the probe fails the reply is 550 and the client record, the current path with
  it, is unchanged; else the directory is closed again, the current path becomes the
  resulting path and the reply is 250.
\<close>

theorem cwd_probe_before_update:
  assumes "sscanf_word_arg (recv_buffer client) = Some arg" and "arg \<noteq> ''..''"
    and "fits arg" and "cwd_tmp_path client arg = Some tmp"
    and "arg \<noteq> ''/''" and "tmp \<noteq> ''/''" and "\<not> path_is_at_root tmp"
  shows "\<exists>client' rest.
     cmd_CWD_func P client = Some (client', IoDopen (get_vita_path tmp) # rest) \<and>
     (if io_dopen P (get_vita_path tmp) < 0
      then client' = client \<and> rest = [SendCtrl ''550 Invalid directory.\<newline>'']
      else client' = client\<lparr>cur_path := tmp\<rparr> \<and>
           rest = [IoDclose (io_dopen P (get_vita_path tmp)),
                   SendCtrl ''250 Requested file action okay, completed.\<newline>''])"
  using assms(1,3,5,2,4,6) by (rule cwd_probe_any_target)

lemma demo_cwd_arg: "sscanf_word_arg ''CWD data'' = Some ''data''"
  by (simp add: sscanf_word_arg_def isspace_def not_crlftab_def)

lemma demo_cwd_tmp_path:
  "cwd_tmp_path (demo_client\<lparr>cur_path := ''/ux0:/'', recv_buffer := ''CWD data''\<rparr>) ''data'' =
     Some ''/ux0:/data''"
  by (simp add: cwd_tmp_path_def starts_with_slash_def path_is_at_root_def demo_client_def
      fits_def PATH_MAX_def)

theorem cwd_probe_before_update_witness:
  "cmd_CWD_func demo_platform
       (demo_client\<lparr>cur_path := ''/ux0:/'', recv_buffer := ''CWD data''\<rparr>) =
     Some (demo_client\<lparr>cur_path := ''/ux0:/data'', recv_buffer := ''CWD data''\<rparr>,
           [IoDopen (Some ''ux0:/data''), IoDclose 3,
            SendCtrl ''250 Requested file action okay, completed.\<newline>'']) \<and>
   cmd_CWD_func (demo_platform\<lparr>io_dopen := (\<lambda>p. - 1)\<rparr>)
       (demo_client\<lparr>cur_path := ''/ux0:/'', recv_buffer := ''CWD data''\<rparr>) =
     Some (demo_client\<lparr>cur_path := ''/ux0:/'', recv_buffer := ''CWD data''\<rparr>,
           [IoDopen (Some ''ux0:/data''), SendCtrl ''550 Invalid directory.\<newline>'']) \<and>
   \<not> path_is_at_root ''/ux0:/data''"
proof -
  have g: "get_vita_path ''/ux0:/data'' = Some ''ux0:/data''"
    by (simp add: get_vita_path_def)
  have d: "io_dopen demo_platform p = 3" for p
    by (simp add: demo_platform_def)
  have f: "fits ''data''"
    by (simp add: fits_def PATH_MAX_def)
  have r: "\<not> path_is_at_root ''/ux0:/data''"
    by (simp add: path_is_at_root_def)
  show ?thesis
    using cwd_probe_before_update
        [of "demo_client\<lparr>cur_path := ''/ux0:/'', recv_buffer := ''CWD data''\<rparr>" "''data''"
          "''/ux0:/data''" demo_platform]
      cwd_probe_before_update
        [of "demo_client\<lparr>cur_path := ''/ux0:/'', recv_buffer := ''CWD data''\<rparr>" "''data''"
          "''/ux0:/data''" "demo_platform\<lparr>io_dopen := (\<lambda>p. - 1)\<rparr>"]
    by (auto simp: demo_cwd_arg demo_cwd_tmp_path g d f r)
qed

text \<open>
  C3 as the specification words it fails for \<^verbatim>\<open>CWD ..\<close>: from \<^verbatim>\<open>/ux0:/a/b\<close> the
  current path becomes \<^verbatim>\<open>/ux0:/a\<close>, which is neither \<^verbatim>\<open>/\<close> nor a mount root, with
  no probe in the trace and a 250 reply, on a platform where every probe would fail.
\<close>

theorem cwd_dotdot_counterexample:
  "cmd_CWD_func (demo_platform\<lparr>io_dopen := (\<lambda>p. - 1)\<rparr>)
       (demo_client\<lparr>cur_path := ''/ux0:/a/b'', recv_buffer := ''CWD ..''\<rparr>) =
     Some (demo_client\<lparr>cur_path := ''/ux0:/a'', recv_buffer := ''CWD ..''\<rparr>,
           [SendCtrl ''250 Requested file action okay, completed.\<newline>'']) \<and>
   ''/ux0:/a'' \<noteq> ''/'' \<and>
   \<not> path_is_at_root ''/ux0:/a'' \<and>
   io_dopen (demo_platform\<lparr>io_dopen := (\<lambda>p. - 1)\<rparr>) (get_vita_path ''/ux0:/a'') < 0"
  by (simp add: cmd_CWD_func_def sscanf_word_arg_def isspace_def not_crlftab_def dir_up_def
      path_is_at_root_def demo_client_def Let_def fits_def PATH_MAX_def)

subsection \<open>The native path of a file command\<close>

lemma get_vita_path_strips:
  "get_vita_path p = (if length p \<le> 1 then None else Some (tl p))"
  by (cases p) (simp_all add: get_vita_path_def)

text \<open>
  C6 does not hold of the code. \<^verbatim>\<open>get_vita_path\<close> gives NULL for a virtual path of
  length at most 1, and the file commands hand that NULL to the storage call without
  a test: for every platform and client, \<^verbatim>\<open>DELE /\<close> calls \<^verbatim>\<open>sceIoRemove(NULL)\<close> and
  \<^verbatim>\<open>MKD /\<close> calls \<^verbatim>\<open>sceIoMkdir(NULL)\<close>.
\<close>

theorem file_command_on_root_passes_null:
  "hd (snd (cmd_DELE_func P (client\<lparr>recv_buffer := ''DELE /''\<rparr>))) = IoRemove None \<and>
   hd (snd (cmd_MKD_func P (client\<lparr>recv_buffer := ''MKD /''\<rparr>))) = IoMkdir None \<and>
   gen_filepath P (client\<lparr>recv_buffer := ''DELE /''\<rparr>) = ''/''"
  by (simp add: cmd_DELE_func_def delete_file_def cmd_MKD_func_def create_dir_def
      gen_filepath_def sscanf_nonspace_arg_def get_vita_path_def starts_with_slash_def
      isspace_def not_crlftab_def)

subsection \<open>Data sockets of a session\<close>

text \<open>
  C7 does not hold of the code. Two PASV commands in a row create two listening
  sockets (here the platform returns the descriptors 5 and 7); the second overwrites
  \<^verbatim>\<open>data_sockfd\<close> and the first is not closed. After a following LIST, which closes
  the socket the client record names and the accepted socket, descriptor 5 is still
  open and the client record does not name it; it is still open when the session
  thread has closed its sockets on exit, be it after the LIST or right after the
  second PASV.
\<close>

theorem pasv_twice_leaks_socket:
  "open_sockets
     (snd (cmd_PASV_func 0 (demo_platform\<lparr>net_socket := 5\<rparr>) demo_client) @
      snd (cmd_PASV_func 0 (demo_platform\<lparr>net_socket := 7\<rparr>)
             (fst (cmd_PASV_func 0 (demo_platform\<lparr>net_socket := 5\<rparr>) demo_client)))) = [7, 5] \<and>
   data_sockfd
     (fst (cmd_PASV_func 0 (demo_platform\<lparr>net_socket := 7\<rparr>)
             (fst (cmd_PASV_func 0 (demo_platform\<lparr>net_socket := 5\<rparr>) demo_client)))) = 7 \<and>
   map_option
     (\<lambda>r. (open_sockets
              (snd (cmd_PASV_func 0 (demo_platform\<lparr>net_socket := 5\<rparr>) demo_client) @
               snd (cmd_PASV_func 0 (demo_platform\<lparr>net_socket := 7\<rparr>)
                      (fst (cmd_PASV_func 0 (demo_platform\<lparr>net_socket := 5\<rparr>) demo_client))) @
               snd r),
            data_con_type (fst r)))
     (send_LIST demo_devices (demo_platform\<lparr>net_accept := 8\<rparr>)
        (fst (cmd_PASV_func 0 (demo_platform\<lparr>net_socket := 7\<rparr>)
                (fst (cmd_PASV_func 0 (demo_platform\<lparr>net_socket := 5\<rparr>) demo_client))))
        ''/'') =
     Some ([5], FTP_DATA_CONNECTION_NONE) \<and>
   map_option
     (\<lambda>r. open_sockets
            (snd (cmd_PASV_func 0 (demo_platform\<lparr>net_socket := 5\<rparr>) demo_client) @
             snd (cmd_PASV_func 0 (demo_platform\<lparr>net_socket := 7\<rparr>)
                    (fst (cmd_PASV_func 0 (demo_platform\<lparr>net_socket := 5\<rparr>) demo_client))) @
             snd r @ client_thread_cleanup (fst r)))
     (send_LIST demo_devices (demo_platform\<lparr>net_accept := 8\<rparr>)
        (fst (cmd_PASV_func 0 (demo_platform\<lparr>net_socket := 7\<rparr>)
                (fst (cmd_PASV_func 0 (demo_platform\<lparr>net_socket := 5\<rparr>) demo_client))))
        ''/'') =
     Some [5] \<and>
   open_sockets
     (snd (cmd_PASV_func 0 (demo_platform\<lparr>net_socket := 5\<rparr>) demo_client) @
      snd (cmd_PASV_func 0 (demo_platform\<lparr>net_socket := 7\<rparr>)
             (fst (cmd_PASV_func 0 (demo_platform\<lparr>net_socket := 5\<rparr>) demo_client))) @
      client_thread_cleanup
        (fst (cmd_PASV_func 0 (demo_platform\<lparr>net_socket := 7\<rparr>)
                (fst (cmd_PASV_func 0 (demo_platform\<lparr>net_socket := 5\<rparr>) demo_client))))) = [5]"
proof -
  have none: "send_devices_from P fd demo_devices i = []" for P fd i
  proof (induction P fd demo_devices i rule: send_devices_from.induct)
    case (1 P fd i)
    then show ?case
      by (subst send_devices_from.simps) (simp add: demo_devices_def MAX_DEVICES_def)
  qed
  show ?thesis
    by (simp add: cmd_PASV_func_def send_LIST_def client_open_data_connection_def
        client_close_data_connection_def data_fd_def none client_thread_cleanup_def
        open_sockets_def account_def demo_platform_def demo_client_def Let_def)
qed

subsection \<open>Going down with CWD and up again with CDUP\<close>

lemma strrchr_absent: "c \<notin> set ys \<Longrightarrow> strrchr ys c = None"
  by (induction ys) auto

lemma strrchr_last: "c \<notin> set ys \<Longrightarrow> strrchr (xs @ c # ys) c = Some (length xs)"
  by (induction xs) (simp_all add: strrchr_absent)

lemma slash_join_snoc: "slash_join (as @ [a]) = slash_join as @ CHR ''/'' # a"
  by (simp add: slash_join_def)

lemma slash_join_Nil: "slash_join [] = []"
  by (simp add: slash_join_def)

lemma slash_join_Cons: "slash_join (x # xs) = CHR ''/'' # x @ slash_join xs"
  by (simp add: slash_join_def)

lemma slash_join_append: "slash_join (xs @ ys) = slash_join xs @ slash_join ys"
  by (simp add: slash_join_def)

lemma slash_join_empty: "slash_join as = [] \<longleftrightarrow> as = []"
  by (cases as) (simp_all add: slash_join_def)

lemma strrchr_slash_join:
  "is_component a \<Longrightarrow> strrchr (slash_join (as @ [a])) CHR ''/'' = Some (length (slash_join as))"
  by (simp add: slash_join_snoc strrchr_last is_component_def)

lemma path_of_Nil: "path_of [] = ''/''"
  by (simp add: path_of_def)

lemma path_of_single: "path_of [a] = CHR ''/'' # a @ ''/''"
  by (simp add: path_of_def slash_join_def)

lemma path_of_many: "bs \<noteq> [] \<Longrightarrow> path_of (bs @ [a]) = slash_join bs @ CHR ''/'' # a"
  by (simp add: path_of_def slash_join_snoc)

text \<open>Where the path of a component list is \<^verbatim>\<open>/\<close> or a mount root.\<close>

lemma path_is_at_root_path_of:
  assumes "\<forall>a \<in> set as. is_component a"
  shows "path_is_at_root (path_of as) \<longleftrightarrow> length as \<le> 1"
proof (cases as rule: rev_cases)
  case Nil
  then show ?thesis
    by (simp add: path_of_Nil path_is_at_root_def)
next
  case (snoc bs a)
  with assms have a: "is_component a" by simp
  show ?thesis
  proof (cases "bs = []")
    case True
    with snoc a show ?thesis
      using strrchr_last [of "CHR ''/''" "[]" "CHR ''/'' # a"]
      by (simp add: path_of_single path_is_at_root_def)
  next
    case False
    with snoc a show ?thesis
      by (simp add: path_of_many path_is_at_root_def strrchr_last is_component_def)
  qed
qed

text \<open>One \<^verbatim>\<open>dir_up\<close> drops the last component.\<close>

lemma dir_up_path_of:
  assumes "\<forall>a \<in> set as. is_component a"
  shows "dir_up (path_of as) = Some (path_of (butlast as))"
proof (cases as rule: rev_cases)
  case Nil
  then show ?thesis
    by (simp add: path_of_Nil dir_up_def)
next
  case (snoc bs a)
  with assms have a: "is_component a" and bs: "\<forall>b \<in> set bs. is_component b"
    by simp_all
  show ?thesis
  proof (cases "bs = []")
    case True
    from a have "path_is_at_root (path_of [a])"
      using path_is_at_root_path_of [of "[a]"] by simp
    with True snoc a show ?thesis
      by (simp add: dir_up_def path_of_single path_of_Nil Let_def is_component_def)
  next
    case False
    from assms snoc False have nr: "\<not> path_is_at_root (path_of (bs @ [a]))"
      using path_is_at_root_path_of [of "bs @ [a]"] by (cases bs) auto
    have len: "length (path_of (bs @ [a])) \<noteq> 1"
      using False a by (simp add: path_of_many is_component_def)
    have last: "strrchr (path_of (bs @ [a])) CHR ''/'' = Some (length (slash_join bs))"
      using False a by (simp add: path_of_many strrchr_last is_component_def)
    have tk: "take (length (slash_join bs)) (path_of (bs @ [a])) = slash_join bs"
      using False by (simp add: path_of_many)
    have up: "dir_up (path_of (bs @ [a])) =
        Some (if strrchr (slash_join bs) CHR ''/'' = Some 0 then slash_join bs @ ''/''
              else slash_join bs)"
      using nr len last tk by (simp add: dir_up_def Let_def)
    have goal: "dir_up (path_of as) = Some (path_of (butlast as)) \<longleftrightarrow>
        dir_up (path_of (bs @ [a])) = Some (path_of bs)"
      using snoc by simp
    show ?thesis
    proof (cases bs rule: rev_cases)
      case Nil
      with False show ?thesis by simp
    next
      case inner: (snoc cs b)
      with bs have b: "is_component b" by simp
      show ?thesis
      proof (cases "cs = []")
        case True
        with inner b have "strrchr (slash_join bs) CHR ''/'' = Some 0"
          using strrchr_slash_join [of b "[]"] by (simp add: slash_join_Nil)
        moreover from True inner have "path_of bs = slash_join bs @ ''/''"
          by (simp add: path_of_def)
        ultimately show ?thesis
          unfolding goal using up by simp
      next
        case cs: False
        with inner b have "strrchr (slash_join bs) CHR ''/'' = Some (length (slash_join cs))"
          using strrchr_slash_join [of b cs] by simp
        moreover from cs have "length (slash_join cs) \<noteq> 0"
          by (simp add: slash_join_empty)
        ultimately have "strrchr (slash_join bs) CHR ''/'' \<noteq> Some 0"
          by simp
        moreover from cs inner have "path_of bs = slash_join bs"
          by (simp add: path_of_def)
        ultimately show ?thesis
          unfolding goal using up by simp
      qed
    qed
  qed
qed

lemma path_of_not_root: "as \<noteq> [] \<Longrightarrow> path_of as \<noteq> ''/''"
proof (cases as rule: rev_cases)
  case Nil
  assume "as \<noteq> []"
  with Nil show ?thesis by simp
next
  case (snoc bs a)
  show ?thesis
  proof (cases "bs = []")
    case True
    with snoc show ?thesis by (simp add: path_of_single)
  next
    case False
    then obtain c cs where "bs = c # cs" by (cases bs) auto
    with snoc show ?thesis
      by (simp add: path_of_def slash_join_def)
  qed
qed

text \<open>The child of the path of a component list is the path of the longer list.\<close>

lemma child_path_path_of:
  assumes "\<forall>b \<in> set as. is_component b" and "is_component a"
  shows "child_path (path_of as) a = path_of (as @ [a])"
proof (cases as rule: rev_cases)
  case Nil
  then show ?thesis
    by (simp add: child_path_def path_of_Nil path_of_single)
next
  case (snoc bs b)
  then have nroot: "path_of as \<noteq> ''/''"
    using path_of_not_root [of as] by simp
  have root: "path_is_at_root (path_of as) \<longleftrightarrow> bs = []"
    using assms(1) snoc path_is_at_root_path_of [of as] by simp
  show ?thesis
  proof (cases "bs = []")
    case True
    with snoc nroot root show ?thesis
      by (simp add: child_path_def path_of_def slash_join_Cons slash_join_Nil)
  next
    case False
    with snoc nroot root show ?thesis
      by (simp add: child_path_def path_of_def slash_join_append slash_join_Cons slash_join_Nil)
  qed
qed

lemma one_level_below_child:
  "one_level_below old new \<Longrightarrow> \<exists>a. is_component a \<and> new = child_path old a"
  by (auto simp: one_level_below_def Let_def)

text \<open>
  A \<^verbatim>\<open>CWD\<close> with a one-component relative argument that fits and whose probe succeeds
  is a one-level descent.
\<close>

lemma one_level_below_child_path:
  "is_component a \<Longrightarrow> one_level_below old (child_path old a)"
  by (simp add: one_level_below_def child_path_def Let_def)

lemma cwd_tmp_path_path_of:
  assumes "\<forall>b \<in> set as. is_component b" and "is_component a"
    and "cur_path client = path_of as" and "fits (path_of (as @ [a]))"
  shows "cwd_tmp_path client a = Some (path_of (as @ [a]))"
proof -
  from assms(2) have ns: "\<not> starts_with_slash a"
    by (cases a) (auto simp: starts_with_slash_def is_component_def)
  show ?thesis
  proof (cases as rule: rev_cases)
    case Nil
    have "strrchr (CHR ''/'' # a) CHR ''/'' = Some 0"
      using assms(2) strrchr_last [of "CHR ''/''" a "[]"] by (simp add: is_component_def)
    moreover have "fits (CHR ''/'' # a)" "fits (CHR ''/'' # a @ ''/'')"
      using assms(4) Nil by (simp_all add: fits_def path_of_single)
    ultimately show ?thesis
      using Nil assms(3) ns
      by (simp add: cwd_tmp_path_def path_of_Nil path_of_single path_is_at_root_def Let_def)
  next
    case (snoc bs b)
    with assms(1) have b: "is_component b" by simp
    show ?thesis
    proof (cases "bs = []")
      case True
      have root: "path_is_at_root (path_of [b])"
        using b path_is_at_root_path_of [of "[b]"] by simp
      have "strrchr (CHR ''/'' # b @ CHR ''/'' # a) CHR ''/'' = Some (Suc (length b))"
        using assms(2) strrchr_last [of "CHR ''/''" a "CHR ''/'' # b"]
        by (simp add: is_component_def)
      with True snoc assms(3,4) ns root show ?thesis
        by (simp add: cwd_tmp_path_def path_of_single Let_def path_of_def slash_join_def)
    next
      case False
      from assms(1) snoc False have nr: "\<not> path_is_at_root (path_of (bs @ [b]))"
        using path_is_at_root_path_of [of "bs @ [b]"] by (cases bs) auto
      have "strrchr (slash_join (bs @ [b]) @ CHR ''/'' # a) CHR ''/'' =
          Some (length (slash_join (bs @ [b])))"
        using assms(2) by (simp add: strrchr_last is_component_def)
      moreover have "length (slash_join (bs @ [b])) \<noteq> 0"
        by (simp add: slash_join_empty)
      ultimately have "strrchr (slash_join (bs @ [b]) @ CHR ''/'' # a) CHR ''/'' \<noteq> Some 0"
        by simp
      with False snoc assms(3,4) ns nr show ?thesis
        by (simp add: cwd_tmp_path_def Let_def path_of_def slash_join_append slash_join_Cons
            slash_join_Nil)
    qed
  qed
qed

lemma sscanf_word_arg_nonempty: "sscanf_word_arg b = Some a \<Longrightarrow> a \<noteq> []"
  by (auto simp: sscanf_word_arg_def Let_def split: if_splits)

lemma cwd_component_descends:
  assumes "\<forall>x \<in> set as. is_component x" and "cur_path client = path_of as"
    and "sscanf_word_arg b = Some a" and "a \<noteq> ''..''" and "CHR ''/'' \<notin> set a"
    and "fits a" and "fits (path_of (as @ [a]))"
    and "0 \<le> io_dopen P (get_vita_path (path_of (as @ [a])))"
  shows "\<exists>client' tr. cmd_CWD_func P (client\<lparr>recv_buffer := b\<rparr>) = Some (client', tr) \<and>
           ctrl_replies tr = [''250 Requested file action okay, completed.\<newline>''] \<and>
           cur_path client' = path_of (as @ [a]) \<and>
           one_level_below (cur_path client) (cur_path client')"
proof -
  from assms(3) have ne: "a \<noteq> []"
    by (rule sscanf_word_arg_nonempty)
  with assms(5) have comp: "is_component a"
    by (simp add: is_component_def)
  from assms(5) have nroot: "a \<noteq> ''/''"
    by auto
  have tmp: "cwd_tmp_path (client\<lparr>recv_buffer := b\<rparr>) a = Some (path_of (as @ [a]))"
    using assms(1) comp assms(2,7) by (intro cwd_tmp_path_path_of) simp_all
  have nr: "path_of (as @ [a]) \<noteq> ''/''"
    by (rule path_of_not_root) simp
  have below: "one_level_below (path_of as) (path_of (as @ [a]))"
    using one_level_below_child_path [OF comp, of "path_of as"] assms(1) comp
    by (simp add: child_path_path_of)
  from assms(2,3,4,6,8) nroot tmp nr below show ?thesis
    by (simp add: cmd_CWD_func_def Let_def ctrl_replies_Cons ctrl_replies_Nil)
qed

text \<open>
  After a run of one-level descents from the path of a component list, the current
  path is the path of a list that is longer by the number of descents.
\<close>

lemma cwd_descents_path_of:
  assumes "\<forall>x \<in> set as. is_component x" and "cur_path client = path_of as"
    and "cwd_descents P client bufs = Some client1"
  shows "\<exists>as'. length as' = length as + length bufs \<and> (\<forall>x \<in> set as'. is_component x) \<and>
           cur_path client1 = path_of as'"
  using assms
proof (induction bufs arbitrary: client as)
  case Nil
  then show ?case by auto
next
  case (Cons b bufs)
  from Cons.prems(3) obtain client' tr where
    step: "cmd_CWD_func P (client\<lparr>recv_buffer := b\<rparr>) = Some (client', tr)"
    and down: "one_level_below (cur_path client) (cur_path client')"
    and rest: "cwd_descents P client' bufs = Some client1"
    by (auto split: option.splits if_splits)
  from one_level_below_child [OF down] obtain a where
    a: "is_component a" "cur_path client' = child_path (cur_path client) a"
    by blast
  have path: "cur_path client' = path_of (as @ [a])"
    using a Cons.prems(1,2) by (simp add: child_path_path_of)
  have comps: "\<forall>x \<in> set (as @ [a]). is_component x"
    using Cons.prems(1) a(1) by simp
  from Cons.IH [OF comps path rest] show ?case
    by auto
qed

lemma cdup_seq_up:
  assumes "\<forall>x \<in> set as. is_component x" and "cur_path client = path_of as" and "length as \<le> n"
  shows "\<exists>client2. cdup_seq n client = Some client2 \<and> cur_path client2 = ''/''"
  using assms
proof (induction n arbitrary: client as)
  case 0
  then show ?case
    by (simp add: path_of_Nil)
next
  case (Suc n)
  have up: "cmd_CDUP_func client =
      Some (client\<lparr>cur_path := path_of (butlast as)\<rparr>, [SendCtrl ''200 Command okay.\<newline>''])"
    using Suc.prems(1,2) by (simp add: cmd_CDUP_func_def dir_up_path_of)
  have comps: "\<forall>x \<in> set (butlast as). is_component x"
    using Suc.prems(1) by (auto dest: in_set_butlastD)
  have len: "length (butlast as) \<le> n"
    using Suc.prems(3) by simp
  from Suc.IH [OF comps _ len, of "client\<lparr>cur_path := path_of (butlast as)\<rparr>"] up
  show ?case
    by simp
qed

lemma sscanf_cwd_dotdot: "sscanf_word_arg ''CWD ..'' = Some ''..''"
  by (simp add: sscanf_word_arg_def isspace_def not_crlftab_def)

lemma cwd_dotdot_seq_up:
  assumes "\<forall>x \<in> set as. is_component x" and "cur_path client = path_of as" and "length as \<le> n"
  shows "\<exists>client2 rs. cwd_seq P client (replicate n ''CWD ..'') = Some (client2, rs) \<and>
           cur_path client2 = ''/''"
  using assms
proof (induction n arbitrary: client as)
  case 0
  then show ?case
    by (simp add: path_of_Nil)
next
  case (Suc n)
  have up: "cmd_CWD_func P (client\<lparr>recv_buffer := ''CWD ..''\<rparr>) =
      Some (client\<lparr>recv_buffer := ''CWD ..'', cur_path := path_of (butlast as)\<rparr>,
            [SendCtrl ''250 Requested file action okay, completed.\<newline>''])"
    using Suc.prems(1,2)
    by (simp add: cmd_CWD_func_def sscanf_cwd_dotdot dir_up_path_of fits_dotdot)
  have comps: "\<forall>x \<in> set (butlast as). is_component x"
    using Suc.prems(1) by (auto dest: in_set_butlastD)
  have len: "length (butlast as) \<le> n"
    using Suc.prems(3) by simp
  from Suc.IH [OF comps _ len,
      of "client\<lparr>recv_buffer := ''CWD ..'', cur_path := path_of (butlast as)\<rparr>"]
  obtain client2 rs where
    "cwd_seq P (client\<lparr>recv_buffer := ''CWD ..'', cur_path := path_of (butlast as)\<rparr>)
       (replicate n ''CWD ..'') = Some (client2, rs)" "cur_path client2 = ''/''"
    by auto
  with up show ?case
    by simp
qed

text \<open>
  C8 as the code has it. Start at \<^verbatim>\<open>/\<close> and send any sequence of \<^verbatim>\<open>CWD\<close> lines each
  of which succeeds (its paths fit the buffers, the probe succeeds, the reply is 250)
  and moves the current path down by one component, whether its argument is relative
  or absolute. Then as many \<^verbatim>\<open>CDUP\<close> commands, or as many \<^verbatim>\<open>CWD ..\<close> lines, bring
  the current path back to \<^verbatim>\<open>/\<close>. \<^verbatim>\<open>CWD ..\<close> at \<^verbatim>\<open>/\<close> leaves the current path
  \<^verbatim>\<open>/\<close>.
\<close>

theorem cwd_descend_cdup_returns:
  assumes "cur_path client = ''/''" and "cwd_descents P client bufs = Some client1"
  shows
    "(\<exists>client2. cdup_seq (length bufs) client1 = Some client2 \<and> cur_path client2 = ''/'') \<and>
     (\<exists>client2 rs.
        cwd_seq P' client1 (replicate (length bufs) ''CWD ..'') = Some (client2, rs) \<and>
        cur_path client2 = ''/'') \<and>
     (\<exists>client2 rs. cwd_seq P client [''CWD ..''] = Some (client2, rs) \<and> cur_path client2 = ''/'')"
proof -
  have start: "cur_path client = path_of []"
    using assms(1) by (simp add: path_of_Nil)
  from cwd_descents_path_of [OF _ start assms(2)] obtain as' where
    as': "length as' = length bufs" "\<forall>x \<in> set as'. is_component x"
      "cur_path client1 = path_of as'"
    by auto
  have a: "\<exists>client2. cdup_seq (length bufs) client1 = Some client2 \<and> cur_path client2 = ''/''"
    using cdup_seq_up [OF as'(2,3), of "length bufs"] as'(1) by simp
  have b: "\<exists>client2 rs.
      cwd_seq P' client1 (replicate (length bufs) ''CWD ..'') = Some (client2, rs) \<and>
      cur_path client2 = ''/''"
    using cwd_dotdot_seq_up [OF as'(2,3), of "length bufs" P'] as'(1) by simp
  have c: "\<exists>client2 rs. cwd_seq P client [''CWD ..''] = Some (client2, rs) \<and> cur_path client2 = ''/''"
    using cwd_dotdot_seq_up [OF _ start, of 1 P] by simp
  from a b c show ?thesis
    by blast
qed

theorem cwd_descend_cdup_returns_witness:
  "cwd_descents demo_platform demo_client
     [''CWD /ux0:'', ''CWD data'', ''CWD /ux0:/data/app''] =
     Some (demo_client\<lparr>recv_buffer := ''CWD /ux0:/data/app'', cur_path := ''/ux0:/data/app''\<rparr>) \<and>
   (\<exists>client2.
      cdup_seq 3
        (demo_client\<lparr>recv_buffer := ''CWD /ux0:/data/app'', cur_path := ''/ux0:/data/app''\<rparr>) =
        Some client2 \<and>
      cur_path client2 = ''/'')"
proof -
  have run: "cwd_descents demo_platform demo_client
      [''CWD /ux0:'', ''CWD data'', ''CWD /ux0:/data/app''] =
      Some (demo_client\<lparr>recv_buffer := ''CWD /ux0:/data/app'', cur_path := ''/ux0:/data/app''\<rparr>)"
    by (simp add: cmd_CWD_func_def cwd_tmp_path_def sscanf_word_arg_def isspace_def
        not_crlftab_def starts_with_slash_def path_is_at_root_def get_vita_path_def
        fits_def PATH_MAX_def one_level_below_def child_path_def is_component_def
        ctrl_replies_def demo_platform_def demo_client_def Let_def)
  have start: "cur_path demo_client = ''/''"
    by (simp add: demo_client_def)
  from cwd_descend_cdup_returns [OF start run, of demo_platform] run
  show ?thesis
    by (auto simp: numeral_3_eq_3)
qed

text \<open>
  C8 as the specification words it fails when one \<^verbatim>\<open>CWD\<close> goes down more than one
  level: after the successful \<^verbatim>\<open>CWD ux0:/data\<close> from \<^verbatim>\<open>/\<close>, one \<^verbatim>\<open>CDUP\<close> leads to
  \<^verbatim>\<open>/ux0:/\<close>, not to \<^verbatim>\<open>/\<close>.
\<close>

theorem cwd_multi_level_counterexample:
  "cwd_seq demo_platform demo_client [''CWD ux0:/data''] =
     Some (demo_client\<lparr>recv_buffer := ''CWD ux0:/data'', cur_path := ''/ux0:/data''\<rparr>,
           [''250 Requested file action okay, completed.\<newline>'']) \<and>
   map_option cur_path
     (cdup_seq (Suc 0) (demo_client\<lparr>recv_buffer := ''CWD ux0:/data'', cur_path := ''/ux0:/data''\<rparr>)) =
     Some ''/ux0:/'' \<and>
   ''/ux0:/'' \<noteq> ''/'' \<and>
   \<not> one_level_below ''/'' ''/ux0:/data''"
  by (simp add: cmd_CWD_func_def cwd_tmp_path_def sscanf_word_arg_def isspace_def
      not_crlftab_def starts_with_slash_def path_is_at_root_def get_vita_path_def
      cmd_CDUP_func_def dir_up_def fits_def PATH_MAX_def
      one_level_below_def child_path_def is_component_def
      ctrl_replies_def demo_platform_def demo_client_def Let_def)

end
